theory Spec2Isabelle
  imports Complex_Main "HOL-Library.Word"
begin

section \<open>Clock, durations and the configured constants\<close>

text \<open>
  \<^verbatim>\<open>std::chrono::steady_clock\<close> counts nanoseconds: a time point is the number of
  ticks since the clock's epoch, a duration a number of ticks. Both are signed, so a
  time point before the epoch (the constructor of \<^verbatim>\<open>Thermostat\<close> subtracts six
  minutes from the current reading) is a negative number.
\<close>

type_synonym time_point = int
type_synonym duration = int

definition seconds :: "int \<Rightarrow> duration" where
  "seconds s = s * 1000000000"

definition k_thermostatPollFrequencySeconds :: duration where
  "k_thermostatPollFrequencySeconds = seconds 15"

definition k_runBlowerFanAfterHeatOff :: duration where
  "k_runBlowerFanAfterHeatOff = seconds (60 * 6)"

definition k_ceilingFanOnDelay :: duration where
  "k_ceilingFanOnDelay = seconds 60"

definition k_ceilingFanOffDelay :: duration where
  "k_ceilingFanOffDelay = seconds 180"

definition k_heatOnFanSpeed :: int where
  "k_heatOnFanSpeed = 2"

definition k_heatOffFanSpeed :: int where
  "k_heatOffFanSpeed = 1"

definition BLOWER_ON :: int where
  "BLOWER_ON = 2"

section \<open>Calls that may stop the process\<close>

text \<open>
  The JSON accessors of rapidjson check their preconditions with
  \<^verbatim>\<open>RAPIDJSON_ASSERT\<close>, which is \<^verbatim>\<open>assert\<close> in the build the README gives
  (no \<^verbatim>\<open>NDEBUG\<close>): a failed check aborts the process. \<open>Aborts\<close> is that outcome,
  \<open>Returns v\<close> a normal return.
\<close>

datatype 'a outcome = Aborts | Returns 'a

definition and_then :: "'a outcome \<Rightarrow> ('a \<Rightarrow> 'b outcome) \<Rightarrow> 'b outcome" where
  "and_then m f = (case m of Aborts \<Rightarrow> Aborts | Returns v \<Rightarrow> f v)"

text \<open>The short-circuit \<^verbatim>\<open>a || b\<close> of two calls that may abort.\<close>

definition or_else :: "bool outcome \<Rightarrow> bool outcome \<Rightarrow> bool outcome" where
  "or_else a b = (case a of Aborts \<Rightarrow> Aborts | Returns x \<Rightarrow> if x then Returns True else b)"

section \<open>The JSON document of the thermostat's answer\<close>

text \<open>
  A parsed document, as \<^verbatim>\<open>rapidjson::Document\<close> holds it. An integer literal is
  \<open>JInt\<close>, a literal with a fraction or an exponent is \<open>JDouble\<close>; an object keeps
  its members in order. The parser itself (\<^verbatim>\<open>jsonDoc.Parse\<close>) is the library's and
  is a parameter \<open>Parse\<close> of the model: \<open>None\<close> is \<^verbatim>\<open>HasParseError()\<close>.
\<close>

datatype json =
    JNull
  | JBool bool
  | JInt int
  | JDouble real
  | JString string
  | JArray "json list"
  | JObject "(string \<times> json) list"

text \<open>\<^verbatim>\<open>HasMember\<close> asserts \<^verbatim>\<open>IsObject()\<close>.\<close>

definition HasMember :: "json \<Rightarrow> string \<Rightarrow> bool outcome" where
  "HasMember doc name =
     (case doc of
        JObject ms \<Rightarrow> Returns (map_of ms name \<noteq> None)
      | _ \<Rightarrow> Aborts)"

text \<open>\<^verbatim>\<open>operator[]\<close> asserts \<^verbatim>\<open>IsObject()\<close> and yields the first member of that name.\<close>

definition member :: "json \<Rightarrow> string \<Rightarrow> json outcome" where
  "member doc name =
     (case doc of
        JObject ms \<Rightarrow> (case map_of ms name of Some v \<Rightarrow> Returns v | None \<Rightarrow> Aborts)
      | _ \<Rightarrow> Aborts)"

text \<open>
  \<^verbatim>\<open>GetFloat\<close> is \<^verbatim>\<open>static_cast<float>(GetDouble())\<close> and \<^verbatim>\<open>GetDouble\<close> asserts
  \<^verbatim>\<open>IsNumber()\<close>. The two temperatures are carried as reals: no controller reads them,
  and the rounding to \<^verbatim>\<open>float\<close> is left out.
\<close>

definition GetFloat :: "json \<Rightarrow> real outcome" where
  "GetFloat v =
     (case v of
        JInt i \<Rightarrow> Returns (of_int i)
      | JDouble d \<Rightarrow> Returns d
      | _ \<Rightarrow> Aborts)"

text \<open>\<^verbatim>\<open>GetInt\<close> asserts the int flag: an integer literal that fits 32 bits, signed.\<close>

definition GetInt :: "json \<Rightarrow> int outcome" where
  "GetInt v =
     (case v of
        JInt i \<Rightarrow> if - (2 ^ 31) \<le> i \<and> i < 2 ^ 31 then Returns i else Aborts
      | _ \<Rightarrow> Aborts)"

section \<open>Thermostat\<close>

record ThermostatState =
  temp :: real
  targetTemp :: real
  isHeatOn :: bool
  blowerState :: int

text \<open>\<^verbatim>\<open>unsigned long\<close> is 64 bits wide on the LP64 targets of the build.\<close>

type_synonym ulong = "64 word"

record Thermostat =
  previousState :: "ThermostatState option"
  lastTransitionTime :: time_point
  stateChanged :: bool
  failCount :: ulong

text \<open>The constructor reads the clock once: \<open>now\<close> is that reading.\<close>

definition Thermostat_Thermostat :: "time_point \<Rightarrow> Thermostat" where
  "Thermostat_Thermostat now =
     \<lparr> previousState = None,
       lastTransitionTime = now - k_runBlowerFanAfterHeatOff,
       stateChanged = False,
       failCount = 0 \<rparr>"

text \<open>\<open>now\<close> is the clock reading of the call.\<close>

definition GetTimeSinceTransition :: "Thermostat \<Rightarrow> time_point \<Rightarrow> duration" where
  "GetTimeSinceTransition tstat now =
     (if lastTransitionTime tstat = 0 then 0
      else now - lastTransitionTime tstat)"

definition StateChanged :: "Thermostat \<Rightarrow> bool" where
  "StateChanged tstat = stateChanged tstat"

definition isFurnaceOn :: "Thermostat \<Rightarrow> bool" where
  "isFurnaceOn tstat =
     (case previousState tstat of None \<Rightarrow> False | Some s \<Rightarrow> isHeatOn s)"

definition GetBlowerState :: "Thermostat \<Rightarrow> int" where
  "GetBlowerState tstat =
     (case previousState tstat of None \<Rightarrow> - 1 | Some s \<Rightarrow> blowerState s)"

definition missing_fields :: "json \<Rightarrow> bool outcome" where
  "missing_fields jsonDoc =
     or_else (and_then (HasMember jsonDoc ''temp'') (\<lambda>b. Returns (\<not> b)))
    (or_else (and_then (HasMember jsonDoc ''t_heat'') (\<lambda>b. Returns (\<not> b)))
    (or_else (and_then (HasMember jsonDoc ''tstate'') (\<lambda>b. Returns (\<not> b)))
             (and_then (HasMember jsonDoc ''fmode'') (\<lambda>b. Returns (\<not> b)))))"

text \<open>
  \<open>missing_fields\<close> is the condition of the third \<^verbatim>\<open>if\<close> of \<^verbatim>\<open>ParseState\<close>: true when a
  field is missing. The inner \<open>None\<close> of the result is \<^verbatim>\<open>std::nullopt\<close>.
\<close>

definition ParseState ::
  "(string \<Rightarrow> json option) \<Rightarrow> string \<Rightarrow> ThermostatState option outcome" where
  "ParseState Parse thermostatData =
     (if thermostatData = [] then Returns None
      else case Parse thermostatData of
        None \<Rightarrow> Returns None
      | Some jsonDoc \<Rightarrow>
          and_then (missing_fields jsonDoc) (\<lambda>missing.
            if missing then Returns None
            else
              and_then (and_then (member jsonDoc ''temp'') GetFloat) (\<lambda>t.
              and_then (and_then (member jsonDoc ''t_heat'') GetFloat) (\<lambda>tt.
              and_then (and_then (member jsonDoc ''tstate'') GetInt) (\<lambda>ts.
              and_then (and_then (member jsonDoc ''fmode'') GetInt) (\<lambda>fm.
                Returns (Some \<lparr> temp = t, targetTemp = tt,
                                isHeatOn = (ts = 1), blowerState = fm \<rparr>)))))))"

text \<open>
  The entries \<^verbatim>\<open>Update\<close> writes with \<^verbatim>\<open>syslog(LOG_ERR, ...)\<close>: the attempt count, the
  status code and the body.
\<close>

datatype syslog_entry =
    FailedToGetData ulong int string
  | FailedToParseData ulong int string

text \<open>
  \<open>thermostatData\<close> is what \<^verbatim>\<open>doHttpRequest\<close> returned: the status code (0 when no
  answer came) and the body. \<open>now\<close> is the clock reading of line 280.
\<close>

definition Thermostat_Update ::
  "(string \<Rightarrow> json option) \<Rightarrow> int \<times> string \<Rightarrow> time_point \<Rightarrow> Thermostat
     \<Rightarrow> (bool \<times> Thermostat \<times> syslog_entry list) outcome" where
  "Thermostat_Update Parse thermostatData now tstat0 =
     (let tstat = tstat0\<lparr>stateChanged := False\<rparr> in
      if fst thermostatData \<noteq> 200 then
        (let tstat1 = tstat\<lparr>failCount := failCount tstat + 1\<rparr> in
         Returns (False, tstat1,
           if failCount tstat1 mod 6 = 0
           then [FailedToGetData (failCount tstat1) (fst thermostatData) (snd thermostatData)]
           else []))
      else
        and_then (ParseState Parse (snd thermostatData)) (\<lambda>newState.
          case newState of
            None \<Rightarrow>
              (let tstat1 = tstat\<lparr>failCount := failCount tstat + 1\<rparr> in
               Returns (False, tstat1,
                 if failCount tstat1 mod 6 = 0
                 then [FailedToParseData (failCount tstat1) (fst thermostatData)
                         (snd thermostatData)]
                 else []))
          | Some new \<Rightarrow>
              (let changed =
                     (case previousState tstat of
                        None \<Rightarrow> False
                      | Some prev \<Rightarrow> isHeatOn new \<noteq> isHeatOn prev)
               in Returns (True,
                    tstat\<lparr> failCount := 0,
                           stateChanged := changed,
                           previousState := Some new,
                           lastTransitionTime :=
                             (if changed then now else lastTransitionTime tstat) \<rparr>,
                    []))))"

section \<open>The fans\<close>

text \<open>The two commands a fan posts to its device.\<close>

datatype device_call = SetFanSpeed int | SetBlowerState int

record CeilingFan =
  fanStateUpdatedSinceLastTransition :: bool

definition CeilingFan_CeilingFan :: CeilingFan where
  "CeilingFan_CeilingFan = \<lparr> fanStateUpdatedSinceLastTransition = False \<rparr>"

text \<open>
  \<open>post_ok c\<close> is the device's answer to the command \<open>c\<close>, were it posted now: true
  for status 200. \<open>now\<close> is the clock reading of \<^verbatim>\<open>GetTimeSinceTransition\<close>. The
  result is the fan's new state and the commands posted.
\<close>

definition CeilingFan_Update ::
  "(device_call \<Rightarrow> bool) \<Rightarrow> Thermostat \<Rightarrow> time_point \<Rightarrow> CeilingFan
     \<Rightarrow> CeilingFan \<times> device_call list" where
  "CeilingFan_Update post_ok tstat now fan =
     (if StateChanged tstat then
        (fan\<lparr>fanStateUpdatedSinceLastTransition := False\<rparr>, [])
      else if \<not> fanStateUpdatedSinceLastTransition fan \<and>
              GetTimeSinceTransition tstat now >
                (if isFurnaceOn tstat then k_ceilingFanOnDelay else k_ceilingFanOffDelay)
      then
        (let speed = (if isFurnaceOn tstat then k_heatOnFanSpeed else k_heatOffFanSpeed) in
         (fan\<lparr>fanStateUpdatedSinceLastTransition := post_ok (SetFanSpeed speed)\<rparr>,
          [SetFanSpeed speed]))
      else (fan, []))"

record FurnaceBlower =
  latchedState :: "int option"

definition FurnaceBlower_FurnaceBlower :: FurnaceBlower where
  "FurnaceBlower_FurnaceBlower = \<lparr> latchedState = None \<rparr>"

text \<open>
  The condition of the first \<^verbatim>\<open>if\<close> of \<^verbatim>\<open>FurnaceBlower::Update\<close>, written once
  because the theorems below name it.
\<close>

definition override_condition :: "Thermostat \<Rightarrow> time_point \<Rightarrow> bool" where
  "override_condition tstat now =
     (\<not> isFurnaceOn tstat \<and>
      (StateChanged tstat \<or> GetTimeSinceTransition tstat now < k_runBlowerFanAfterHeatOff))"

text \<open>
  \<^verbatim>\<open>SetBlowerState\<close> returns whether the device answered 200, and \<^verbatim>\<open>Update\<close> drops
  that result: the model needs no answer of the device here.
\<close>

definition FurnaceBlower_Update ::
  "Thermostat \<Rightarrow> time_point \<Rightarrow> FurnaceBlower \<Rightarrow> FurnaceBlower \<times> device_call list" where
  "FurnaceBlower_Update tstat now blower =
     (let currentBlowerState = GetBlowerState tstat in
      if override_condition tstat now then
        (let blower1 =
               (if latchedState blower = None \<and> currentBlowerState \<noteq> - 1
                then blower\<lparr>latchedState := Some currentBlowerState\<rparr>
                else blower)
         in (blower1,
             if currentBlowerState \<noteq> BLOWER_ON then [SetBlowerState BLOWER_ON] else []))
      else
        (case latchedState blower of
           None \<Rightarrow> (blower, [])
         | Some latched \<Rightarrow>
             if latched = currentBlowerState
             then (blower\<lparr>latchedState := None\<rparr>, [])
             else (blower, [SetBlowerState latched])))"

section \<open>The control loop\<close>

text \<open>
  \<^verbatim>\<open>main\<close> keeps the fans in one vector of \<^verbatim>\<open>Fan\<close> pointers and calls the virtual
  \<^verbatim>\<open>Update\<close> of each: three ceiling fans, then the furnace blower.
\<close>

datatype Fan = CeilingFanObj CeilingFan | FurnaceBlowerObj FurnaceBlower

definition Fan_Update ::
  "(device_call \<Rightarrow> bool) \<Rightarrow> Thermostat \<Rightarrow> time_point \<Rightarrow> Fan \<Rightarrow> Fan \<times> device_call list" where
  "Fan_Update post_ok tstat now fan =
     (case fan of
        CeilingFanObj c \<Rightarrow>
          (case CeilingFan_Update post_ok tstat now c of (c', calls) \<Rightarrow> (CeilingFanObj c', calls))
      | FurnaceBlowerObj b \<Rightarrow>
          (case FurnaceBlower_Update tstat now b of (b', calls) \<Rightarrow> (FurnaceBlowerObj b', calls)))"

definition main_fans :: "Fan list" where
  "main_fans =
     [CeilingFanObj CeilingFan_CeilingFan, CeilingFanObj CeilingFan_CeilingFan,
      CeilingFanObj CeilingFan_CeilingFan, FurnaceBlowerObj FurnaceBlower_FurnaceBlower]"

text \<open>
  The \<open>i\<close>-th fan of the vector reads the clock and talks to its own device:
  \<open>fanEnv i\<close> is that clock reading and that device's answers.
\<close>

fun update_fans ::
  "(nat \<Rightarrow> time_point \<times> (device_call \<Rightarrow> bool)) \<Rightarrow> Thermostat \<Rightarrow> nat \<Rightarrow> Fan list
     \<Rightarrow> Fan list \<times> device_call list" where
  "update_fans env tstat i [] = ([], [])"
| "update_fans env tstat i (fan # fans) =
     (case Fan_Update (snd (env i)) tstat (fst (env i)) fan of
        (fan', calls) \<Rightarrow>
          (case update_fans env tstat (Suc i) fans of
             (fans', calls') \<Rightarrow> (fan' # fans', calls @ calls')))"

text \<open>What one pass of the \<^verbatim>\<open>while (true)\<close> loop meets: clock readings and devices.\<close>

record iteration =
  loopStartTime :: time_point
  thermostatData :: "int \<times> string"
  updateTime :: time_point
  fanEnv :: "nat \<Rightarrow> time_point \<times> (device_call \<Rightarrow> bool)"
  loopEndTime :: time_point

text \<open>
  \<^verbatim>\<open>std::this_thread::sleep_for\<close> returns at once for a duration that is not positive
  and otherwise asks the system for that duration: the value is the time asked for.
\<close>

definition sleep_for :: "duration \<Rightarrow> duration" where
  "sleep_for rtime = (if rtime \<le> 0 then 0 else rtime)"

text \<open>
  One pass of the loop: the new thermostat and fans, the commands posted, the syslog
  entries, and the time slept.
\<close>

definition loop_iteration ::
  "(string \<Rightarrow> json option) \<Rightarrow> iteration \<Rightarrow> Thermostat \<times> Fan list
     \<Rightarrow> ((Thermostat \<times> Fan list) \<times> device_call list \<times> syslog_entry list \<times> duration) outcome"
  where
  "loop_iteration Parse it st =
     and_then (Thermostat_Update Parse (thermostatData it) (updateTime it) (fst st)) (\<lambda>r.
       (let ok = fst r; tstat = fst (snd r); logs = snd (snd r);
            fc = (if ok then update_fans (fanEnv it) tstat 0 (snd st) else (snd st, []));
            loopExecTime = loopEndTime it - loopStartTime it
        in Returns ((tstat, fst fc), snd fc, logs,
                    sleep_for (k_thermostatPollFrequencySeconds - loopExecTime))))"

section \<open>Runs\<close>

text \<open>
  A run of polls: each poll is the transport's answer and the clock reading of the
  call; the result lists, poll by poll, what \<^verbatim>\<open>Update\<close> returned, the thermostat after
  it and the entries logged. The run aborts when a poll does.
\<close>

type_synonym poll = "(int \<times> string) \<times> time_point"

fun polls ::
  "(string \<Rightarrow> json option) \<Rightarrow> poll list \<Rightarrow> Thermostat
     \<Rightarrow> (bool \<times> Thermostat \<times> syslog_entry list) list outcome" where
  "polls Parse [] tstat = Returns []"
| "polls Parse (p # ps) tstat =
     and_then (Thermostat_Update Parse (fst p) (snd p) tstat) (\<lambda>r.
       and_then (polls Parse ps (fst (snd r))) (\<lambda>rs. Returns (r # rs)))"

definition final_tstat ::
  "Thermostat \<Rightarrow> (bool \<times> Thermostat \<times> syslog_entry list) list \<Rightarrow> Thermostat" where
  "final_tstat tstat rs = (if rs = [] then tstat else fst (snd (last rs)))"

text \<open>
  The reading a poll carries, read off the transport's answer alone: present when the
  status is 200 and the body decodes.
\<close>

definition reading_of :: "(string \<Rightarrow> json option) \<Rightarrow> poll \<Rightarrow> ThermostatState option" where
  "reading_of Parse p =
     (if fst (fst p) = 200
      then (case ParseState Parse (snd (fst p)) of Returns (Some s) \<Rightarrow> Some s | _ \<Rightarrow> None)
      else None)"

definition last_reading ::
  "(string \<Rightarrow> json option) \<Rightarrow> poll list \<Rightarrow> ThermostatState option" where
  "last_reading Parse ps =
     (case List.map_filter (reading_of Parse) ps of [] \<Rightarrow> None | r # rs \<Rightarrow> Some (last (r # rs)))"

text \<open>A poll that \<^verbatim>\<open>Update\<close> counts as failed: a status other than 200, or a body
  that \<^verbatim>\<open>ParseState\<close> turns down.\<close>

definition failed_poll :: "(string \<Rightarrow> json option) \<Rightarrow> poll \<Rightarrow> bool" where
  "failed_poll Parse p =
     (fst (fst p) \<noteq> 200 \<or> ParseState Parse (snd (fst p)) = Returns None)"

text \<open>
  A run of ticks of one ceiling fan: each tick is the device's answers, the thermostat
  as the poll left it and the clock reading; the result lists the fan and the commands
  after each tick.
\<close>

type_synonym fan_tick = "(device_call \<Rightarrow> bool) \<times> Thermostat \<times> time_point"

fun CeilingFan_ticks :: "fan_tick list \<Rightarrow> CeilingFan \<Rightarrow> (CeilingFan \<times> device_call list) list"
  where
  "CeilingFan_ticks [] fan = []"
| "CeilingFan_ticks (e # es) fan =
     (let r = CeilingFan_Update (fst e) (fst (snd e)) (snd (snd e)) fan
      in r # CeilingFan_ticks es (fst r))"

text \<open>A tick whose command the device accepted.\<close>

definition applied :: "CeilingFan \<times> device_call list \<Rightarrow> bool" where
  "applied r = (snd r \<noteq> [] \<and> fanStateUpdatedSinceLastTransition (fst r))"

text \<open>A run of ticks of the furnace blower.\<close>

fun FurnaceBlower_ticks ::
  "(Thermostat \<times> time_point) list \<Rightarrow> FurnaceBlower \<Rightarrow> (FurnaceBlower \<times> device_call list) list"
  where
  "FurnaceBlower_ticks [] blower = []"
| "FurnaceBlower_ticks (e # es) blower =
     (let r = FurnaceBlower_Update (fst e) (snd e) blower
      in r # FurnaceBlower_ticks es (fst r))"

section \<open>The branches of the blower override, in the specification's words\<close>

text \<open>
  Engage or continue the override: capture the latch when none is held and the mode
  seen is valid, and command \<open>ON\<close> when the mode seen is not \<open>ON\<close>.
\<close>

definition engage_override :: "int \<Rightarrow> FurnaceBlower \<Rightarrow> FurnaceBlower \<times> device_call list" where
  "engage_override currentBlowerMode blower =
     ((if latchedState blower = None \<and> currentBlowerMode \<noteq> - 1
       then \<lparr> latchedState = Some currentBlowerMode \<rparr> else blower),
      (if currentBlowerMode = BLOWER_ON then [] else [SetBlowerState BLOWER_ON]))"

text \<open>
  Disengage: with a latch held, clear it when the mode seen is the latched one, and
  otherwise command the latched mode; with no latch, nothing.
\<close>

definition disengage :: "int \<Rightarrow> FurnaceBlower \<Rightarrow> FurnaceBlower \<times> device_call list" where
  "disengage currentBlowerMode blower =
     (case latchedState blower of
        None \<Rightarrow> (blower, [])
      | Some latchedMode \<Rightarrow>
          if currentBlowerMode = latchedMode then (\<lparr> latchedState = None \<rparr>, [])
          else (blower, [SetBlowerState latchedMode]))"

section \<open>Thermostat answers used in the examples\<close>

text \<open>
  Bodies as the thermostat sends them, and the documents rapidjson's parser makes of
  them. \<open>example_Parse\<close> is the parser on these bodies; every other text is a parse
  error for it.
\<close>

definition body_heat_on :: string where
  \<open>body_heat_on = ''{"temp":70.5,"t_heat":70,"tstate":1,"fmode":0}''\<close>

definition body_heat_off :: string where
  \<open>body_heat_off = ''{"temp":70.5,"t_heat":70,"tstate":0,"fmode":0}''\<close>

definition body_heat_off_blower_on :: string where
  \<open>body_heat_off_blower_on = ''{"temp":70.5,"t_heat":70,"tstate":0,"fmode":2}''\<close>

definition body_fmode_minus_one :: string where
  \<open>body_fmode_minus_one = ''{"temp":70.5,"t_heat":70,"tstate":0,"fmode":-1}''\<close>

definition body_temp_string :: string where
  \<open>body_temp_string = ''{"temp":"70.5","t_heat":70,"tstate":1,"fmode":0}''\<close>

definition body_no_fmode :: string where
  \<open>body_no_fmode = ''{"temp":70.5,"t_heat":70,"tstate":1}''\<close>

definition body_array :: string where
  "body_array = ''[]''"

definition tstat_doc :: "json \<Rightarrow> int \<Rightarrow> int \<Rightarrow> json" where
  "tstat_doc t ts fm =
     JObject [(''temp'', t), (''t_heat'', JInt 70), (''tstate'', JInt ts), (''fmode'', JInt fm)]"

definition example_Parse :: "string \<Rightarrow> json option" where
  "example_Parse =
     map_of
       [(body_heat_on, tstat_doc (JDouble 70.5) 1 0),
        (body_heat_off, tstat_doc (JDouble 70.5) 0 0),
        (body_heat_off_blower_on, tstat_doc (JDouble 70.5) 0 2),
        (body_fmode_minus_one, tstat_doc (JDouble 70.5) 0 (- 1)),
        (body_temp_string, tstat_doc (JString ''70.5'') 1 0),
        (body_no_fmode,
           JObject [(''temp'', JDouble 70.5), (''t_heat'', JInt 70), (''tstate'', JInt 1)]),
        (body_array, JArray [])]"

text \<open>A thermostat as the polls leave it, with the given reading and last transition.\<close>

definition tstat_with :: "bool \<Rightarrow> int \<Rightarrow> time_point \<Rightarrow> bool \<Rightarrow> Thermostat" where
  "tstat_with heat fm transition changed =
     \<lparr> previousState =
         Some \<lparr> temp = 70.5, targetTemp = 70, isHeatOn = heat, blowerState = fm \<rparr>,
       lastTransitionTime = transition,
       stateChanged = changed,
       failCount = 0 \<rparr>"

text \<open>
  A pass of the loop in which the thermostat gives the answer \<open>data\<close> and every fan
  device accepts what it is sent, started and finished at the given clock readings.
\<close>

definition example_iteration :: "int \<times> string \<Rightarrow> time_point \<Rightarrow> time_point \<Rightarrow> iteration" where
  "example_iteration data start finish =
     \<lparr> loopStartTime = start,
       thermostatData = data,
       updateTime = start,
       fanEnv = (\<lambda>i. (start, \<lambda>c. True)),
       loopEndTime = finish \<rparr>"

section \<open>Properties of a poll\<close>

lemma and_then_Returns_iff:
  "and_then m f = Returns y \<longleftrightarrow> (\<exists>v. m = Returns v \<and> f v = Returns y)"
  by (cases m) (simp_all add: and_then_def)

lemma and_then_simps [simp]:
  "and_then Aborts f = Aborts"
  "and_then (Returns v) f = f v"
  by (simp_all add: and_then_def)

lemma Update_failed:
  assumes "failed_poll Parse (d, now)"
  shows "Thermostat_Update Parse d now tstat =
     Returns (False, tstat\<lparr>stateChanged := False, failCount := failCount tstat + 1\<rparr>,
       if (failCount tstat + 1) mod 6 = 0
       then [(if fst d \<noteq> 200 then FailedToGetData else FailedToParseData)
               (failCount tstat + 1) (fst d) (snd d)]
       else [])"
  using assms
  by (auto simp: failed_poll_def Thermostat_Update_def Let_def)

lemma Update_decoded:
  assumes "reading_of Parse (d, now) = Some new"
  shows "Thermostat_Update Parse d now tstat =
     Returns (True,
       tstat\<lparr> stateChanged :=
                (case previousState tstat of None \<Rightarrow> False
                 | Some prev \<Rightarrow> isHeatOn new \<noteq> isHeatOn prev),
              failCount := 0,
              previousState := Some new,
              lastTransitionTime :=
                (if (case previousState tstat of None \<Rightarrow> False
                     | Some prev \<Rightarrow> isHeatOn new \<noteq> isHeatOn prev)
                 then now else lastTransitionTime tstat) \<rparr>,
       [])"
  using assms
  by (auto simp: reading_of_def Thermostat_Update_def Let_def
      split: if_splits outcome.splits option.splits)

lemma Update_Returns_cases:
  assumes "Thermostat_Update Parse d now tstat = Returns r"
  shows "failed_poll Parse (d, now) \<and> reading_of Parse (d, now) = None
         \<or> (\<exists>new. reading_of Parse (d, now) = Some new)"
  using assms
  by (auto simp: reading_of_def failed_poll_def Thermostat_Update_def Let_def and_then_Returns_iff
      split: if_splits outcome.splits option.splits)

lemma polls_append:
  "polls Parse (xs @ ys) tstat =
     and_then (polls Parse xs tstat) (\<lambda>rs.
       and_then (polls Parse ys (final_tstat tstat rs)) (\<lambda>rs'. Returns (rs @ rs')))"
proof (induction xs arbitrary: tstat)
  case Nil
  show ?case by (cases "polls Parse ys tstat") (simp_all add: final_tstat_def)
next
  case (Cons x xs)
  show ?case
  proof (cases "Thermostat_Update Parse (fst x) (snd x) tstat")
    case Aborts
    then show ?thesis by simp
  next
    case (Returns r)
    show ?thesis
    proof (cases "polls Parse xs (fst (snd r))")
      case Aborts
      with Returns show ?thesis by (simp add: Cons.IH)
    next
      case (Returns rs)
      have "final_tstat tstat (r # rs) = final_tstat (fst (snd r)) rs"
        by (simp add: final_tstat_def)
      with Returns \<open>Thermostat_Update Parse (fst x) (snd x) tstat = Returns r\<close>
      show ?thesis
        by (cases "polls Parse ys (final_tstat (fst (snd r)) rs)") (simp_all add: Cons.IH)
    qed
  qed
qed

lemma last_reading_Nil [simp]: "last_reading Parse [] = None"
  by (simp add: last_reading_def)

lemma last_reading_Cons:
  "last_reading Parse (p # ps) =
     (case last_reading Parse ps of None \<Rightarrow> reading_of Parse p | Some r \<Rightarrow> Some r)"
  by (cases "reading_of Parse p")
     (auto simp: last_reading_def split: list.splits)

lemma previousState_polls:
  "polls Parse ps tstat = Returns rs \<Longrightarrow>
   previousState (final_tstat tstat rs) =
     (case last_reading Parse ps of None \<Rightarrow> previousState tstat | Some r \<Rightarrow> Some r)"
proof (induction ps arbitrary: tstat rs)
  case Nil
  then show ?case by (simp add: final_tstat_def)
next
  case (Cons p ps)
  from Cons.prems obtain r rs' where
    u: "Thermostat_Update Parse (fst p) (snd p) tstat = Returns r"
    and q: "polls Parse ps (fst (snd r)) = Returns rs'" and rs: "rs = r # rs'"
    by (auto simp: and_then_Returns_iff)
  have f: "final_tstat tstat rs = final_tstat (fst (snd r)) rs'"
    by (simp add: rs final_tstat_def)
  have p: "previousState (fst (snd r)) =
      (case reading_of Parse p of None \<Rightarrow> previousState tstat | Some n \<Rightarrow> Some n)"
  proof -
    from Update_Returns_cases [of Parse "fst p" "snd p" tstat r] u
    consider "failed_poll Parse p" "reading_of Parse p = None"
      | new where "reading_of Parse p = Some new" by auto
    then show ?thesis
    proof cases
      case 1
      with u Update_failed [of Parse "fst p" "snd p" tstat] show ?thesis by auto
    next
      case 2
      with u Update_decoded [of Parse "fst p" "snd p" new tstat] show ?thesis by auto
    qed
  qed
  show ?case
    unfolding f Cons.IH [OF q] p last_reading_Cons
    by (simp split: option.splits)
qed

lemma Update_result:
  assumes "Thermostat_Update Parse d now tstat = Returns (ok, tstat', lg)"
  shows "(ok \<longrightarrow> reading_of Parse (d, now) = previousState tstat' \<and> previousState tstat' \<noteq> None)
       \<and> (\<not> ok \<longrightarrow> reading_of Parse (d, now) = None \<and> previousState tstat' = previousState tstat)
       \<and> (\<not> stateChanged tstat' \<longrightarrow> lastTransitionTime tstat' = lastTransitionTime tstat)"
proof -
  from Update_Returns_cases [OF assms]
  consider "failed_poll Parse (d, now)" "reading_of Parse (d, now) = None"
    | new where "reading_of Parse (d, now) = Some new" by auto
  then show ?thesis
  proof cases
    case 1
    with assms Update_failed [of Parse d now tstat] show ?thesis by auto
  next
    case 2
    with assms Update_decoded [of Parse d now new tstat] show ?thesis by auto
  qed
qed

lemma polls_Cons_Returns:
  assumes "polls Parse (p # ps) tstat = Returns rs"
  obtains r rs' where "Thermostat_Update Parse (fst p) (snd p) tstat = Returns r"
    and "polls Parse ps (fst (snd r)) = Returns rs'" and "rs = r # rs'"
  using assms by (auto simp: and_then_Returns_iff)

lemma final_tstat_Cons: "final_tstat tstat (r # rs) = final_tstat (fst (snd r)) rs"
  by (simp add: final_tstat_def)

lemma lastTransitionTime_polls:
  assumes "polls Parse ps tstat = Returns rs"
    and "\<forall>r\<in>set rs. \<not> stateChanged (fst (snd r))"
  shows "lastTransitionTime (final_tstat tstat rs) = lastTransitionTime tstat"
  using assms
proof (induction ps arbitrary: tstat rs)
  case Nil
  then show ?case by (simp add: final_tstat_def)
next
  case (Cons p ps)
  from Cons.prems(1) obtain r rs' where
    u: "Thermostat_Update Parse (fst p) (snd p) tstat = Returns r"
    and q: "polls Parse ps (fst (snd r)) = Returns rs'" and rs: "rs = r # rs'"
    by (rule polls_Cons_Returns)
  from Cons.prems(2) rs have n: "\<not> stateChanged (fst (snd r))"
    and n': "\<forall>r\<in>set rs'. \<not> stateChanged (fst (snd r))" by simp_all
  from u have "Thermostat_Update Parse (fst p) (snd p) tstat =
      Returns (fst r, fst (snd r), snd (snd r))" by simp
  from Update_result [OF this] n
  have "lastTransitionTime (fst (snd r)) = lastTransitionTime tstat" by blast
  with Cons.IH [OF q n'] show ?case by (simp add: rs final_tstat_Cons)
qed

lemma previousState_None_polls:
  assumes "polls Parse ps tstat = Returns rs"
  shows "previousState (final_tstat tstat rs) = None \<longleftrightarrow>
           previousState tstat = None \<and> (\<forall>r\<in>set rs. \<not> fst r)"
  using assms
proof (induction ps arbitrary: tstat rs)
  case Nil
  then show ?case by (simp add: final_tstat_def)
next
  case (Cons p ps)
  from Cons.prems(1) obtain r rs' where
    u: "Thermostat_Update Parse (fst p) (snd p) tstat = Returns r"
    and q: "polls Parse ps (fst (snd r)) = Returns rs'" and rs: "rs = r # rs'"
    by (rule polls_Cons_Returns)
  from u have "Thermostat_Update Parse (fst p) (snd p) tstat =
      Returns (fst r, fst (snd r), snd (snd r))" by simp
  from Update_result [OF this]
  have "previousState (fst (snd r)) = None \<longleftrightarrow> previousState tstat = None \<and> \<not> fst r"
    by auto
  with Cons.IH [OF q] show ?case by (auto simp: rs final_tstat_Cons)
qed

section \<open>The blower override\<close>

text \<open>
  Claim C1. On a tick after a successful poll (the thermostat holds a reading), the
  furnace blower takes the override branch (capture the latch once, when none is held
  and the mode seen is valid; command \<open>ON\<close> whenever the mode seen is not \<open>ON\<close>)
  exactly when heat is inactive and either a transition occurred this poll or the time
  since the transition is below the tail window, and the disengage branch otherwise.
  The comparison is strict: at exactly the tail window, with no transition this poll,
  the tick disengages. With heat active the tick disengages whatever the time.
\<close>

theorem blower_override_branch:
  assumes "previousState tstat = Some reading"
  shows "FurnaceBlower_Update tstat now blower =
           (if \<not> isHeatOn reading \<and>
               (stateChanged tstat \<or>
                GetTimeSinceTransition tstat now < k_runBlowerFanAfterHeatOff)
            then engage_override (blowerState reading) blower
            else disengage (blowerState reading) blower)
       \<and> (\<not> stateChanged tstat \<and>
            GetTimeSinceTransition tstat now = k_runBlowerFanAfterHeatOff \<longrightarrow>
            FurnaceBlower_Update tstat now blower = disengage (blowerState reading) blower)
       \<and> (isHeatOn reading \<longrightarrow>
            FurnaceBlower_Update tstat now blower = disengage (blowerState reading) blower)"
  using assms
  by (auto simp: FurnaceBlower_Update_def override_condition_def isFurnaceOn_def
      StateChanged_def GetBlowerState_def engage_override_def disengage_def Let_def
      split: option.splits)

theorem blower_override_branch_witness:
  "previousState (tstat_with False 0 (seconds 1000) False) =
     Some \<lparr> temp = 70.5, targetTemp = 70, isHeatOn = False, blowerState = 0 \<rparr>
   \<and> GetTimeSinceTransition (tstat_with False 0 (seconds 1000) False) (seconds 1360) =
       k_runBlowerFanAfterHeatOff
   \<and> FurnaceBlower_Update (tstat_with False 0 (seconds 1000) False) (seconds 1360)
        \<lparr> latchedState = Some 0 \<rparr> = (\<lparr> latchedState = None \<rparr>, [])
   \<and> FurnaceBlower_Update (tstat_with False 0 (seconds 1000) False) (seconds 1359)
        \<lparr> latchedState = None \<rparr> = (\<lparr> latchedState = Some 0 \<rparr>, [SetBlowerState 2])
   \<and> FurnaceBlower_Update (tstat_with True 2 (seconds 1100) True) (seconds 1100)
        \<lparr> latchedState = Some 0 \<rparr> = (\<lparr> latchedState = Some 0 \<rparr>, [SetBlowerState 0])"
proof -
  let ?t = "tstat_with False 0 (seconds 1000) False"
  let ?r = "\<lparr> temp = 70.5, targetTemp = 70, isHeatOn = False, blowerState = 0 \<rparr>"
  let ?u = "tstat_with True 2 (seconds 1100) True"
  let ?q = "\<lparr> temp = 70.5, targetTemp = 70, isHeatOn = True, blowerState = 2 \<rparr>"
  have p: "previousState ?t = Some ?r"
    by (simp add: tstat_with_def)
  have s: "\<not> stateChanged ?t"
    by (simp add: tstat_with_def)
  have g: "GetTimeSinceTransition ?t (seconds 1360) = k_runBlowerFanAfterHeatOff"
    by (simp add: GetTimeSinceTransition_def tstat_with_def seconds_def
        k_runBlowerFanAfterHeatOff_def)
  have g': "GetTimeSinceTransition ?t (seconds 1359) < k_runBlowerFanAfterHeatOff"
    by (simp add: GetTimeSinceTransition_def tstat_with_def seconds_def
        k_runBlowerFanAfterHeatOff_def)
  have "FurnaceBlower_Update ?t (seconds 1360) \<lparr> latchedState = Some 0 \<rparr> =
          disengage (blowerState ?r) \<lparr> latchedState = Some 0 \<rparr>"
    using blower_override_branch [OF p, of "seconds 1360" "\<lparr> latchedState = Some 0 \<rparr>"] s g
    by blast
  then have a: "FurnaceBlower_Update ?t (seconds 1360) \<lparr> latchedState = Some 0 \<rparr> =
          (\<lparr> latchedState = None \<rparr>, [])"
    by (simp add: disengage_def)
  have "FurnaceBlower_Update ?t (seconds 1359) \<lparr> latchedState = None \<rparr> =
          engage_override (blowerState ?r) \<lparr> latchedState = None \<rparr>"
    using blower_override_branch [OF p, of "seconds 1359" "\<lparr> latchedState = None \<rparr>"] g'
    by simp
  then have b: "FurnaceBlower_Update ?t (seconds 1359) \<lparr> latchedState = None \<rparr> =
          (\<lparr> latchedState = Some 0 \<rparr>, [SetBlowerState 2])"
    by (simp add: engage_override_def BLOWER_ON_def)
  have pu: "previousState ?u = Some ?q"
    by (simp add: tstat_with_def)
  have "FurnaceBlower_Update ?u (seconds 1100) \<lparr> latchedState = Some 0 \<rparr> =
          disengage (blowerState ?q) \<lparr> latchedState = Some 0 \<rparr>"
    using blower_override_branch [OF pu, of "seconds 1100" "\<lparr> latchedState = Some 0 \<rparr>"]
    by simp
  then have c: "FurnaceBlower_Update ?u (seconds 1100) \<lparr> latchedState = Some 0 \<rparr> =
          (\<lparr> latchedState = Some 0 \<rparr>, [SetBlowerState 0])"
    by (simp add: disengage_def)
  from p g a b c show ?thesis by blast
qed

section \<open>Transition detection\<close>

text \<open>
  Claim C3. After any run of polls from the start of the process, the transition flag
  is set exactly when the last poll decoded a reading and its heat call differs from
  the heat call of the reading decoded last before it. It is false when no reading was
  decoded before (the first successful poll) and false after a failed poll: the flag
  is computed anew by every poll.
\<close>

theorem transition_flag:
  assumes "polls Parse (ps @ [p]) (Thermostat_Thermostat t0) = Returns rs"
  shows "StateChanged (final_tstat (Thermostat_Thermostat t0) rs) =
     (case reading_of Parse p of
        None \<Rightarrow> False
      | Some new \<Rightarrow>
          (case last_reading Parse ps of
             None \<Rightarrow> False
           | Some prev \<Rightarrow> isHeatOn new \<noteq> isHeatOn prev))"
proof -
  let ?t = "Thermostat_Thermostat t0"
  from assms obtain rs1 rs2 where
    a: "polls Parse ps ?t = Returns rs1"
    and b: "polls Parse [p] (final_tstat ?t rs1) = Returns rs2" and rs: "rs = rs1 @ rs2"
    by (auto simp: polls_append and_then_Returns_iff)
  from b obtain r where
    u: "Thermostat_Update Parse (fst p) (snd p) (final_tstat ?t rs1) = Returns r"
    and rs2: "rs2 = [r]"
    by (auto simp: and_then_Returns_iff)
  have f: "final_tstat ?t rs = fst (snd r)"
    by (simp add: rs rs2 final_tstat_def)
  have prev: "previousState (final_tstat ?t rs1) = last_reading Parse ps"
    using previousState_polls [OF a]
    by (simp add: Thermostat_Thermostat_def split: option.splits)
  from Update_Returns_cases [of Parse "fst p" "snd p" _ r] u
  consider "failed_poll Parse p" "reading_of Parse p = None"
    | new where "reading_of Parse p = Some new" by auto
  then show ?thesis
  proof cases
    case 1
    with u Update_failed [of Parse "fst p" "snd p" "final_tstat ?t rs1"]
    show ?thesis by (auto simp: f StateChanged_def)
  next
    case 2
    with u Update_decoded [of Parse "fst p" "snd p" new "final_tstat ?t rs1"]
    show ?thesis by (auto simp: f StateChanged_def prev)
  qed
qed

theorem transition_flag_witness:
  "polls example_Parse
     ([((200, body_heat_on), seconds 1000), ((500, []), seconds 1015)]
        @ [((200, body_heat_off), seconds 1030)])
     (Thermostat_Thermostat (seconds 985)) =
     Returns [(True, tstat_with True 0 (seconds 625) False, []),
              (False, tstat_with True 0 (seconds 625) False\<lparr>failCount := 1\<rparr>, []),
              (True, tstat_with False 0 (seconds 1030) True, [])]
   \<and> StateChanged (tstat_with False 0 (seconds 1030) True)
   \<and> last_reading example_Parse
        [((200, body_heat_on), seconds 1000), ((500, []), seconds 1015)] =
       Some \<lparr> temp = 70.5, targetTemp = 70, isHeatOn = True, blowerState = 0 \<rparr>
   \<and> reading_of example_Parse ((200, body_heat_off), seconds 1030) =
       Some \<lparr> temp = 70.5, targetTemp = 70, isHeatOn = False, blowerState = 0 \<rparr>"
proof -
  have run: "polls example_Parse
     ([((200, body_heat_on), seconds 1000), ((500, []), seconds 1015)]
        @ [((200, body_heat_off), seconds 1030)])
     (Thermostat_Thermostat (seconds 985)) =
     Returns [(True, tstat_with True 0 (seconds 625) False, []),
              (False, tstat_with True 0 (seconds 625) False\<lparr>failCount := 1\<rparr>, []),
              (True, tstat_with False 0 (seconds 1030) True, [])]"
    by code_simp
  have l: "last_reading example_Parse
        [((200, body_heat_on), seconds 1000), ((500, []), seconds 1015)] =
       Some \<lparr> temp = 70.5, targetTemp = 70, isHeatOn = True, blowerState = 0 \<rparr>"
    by code_simp
  have r: "reading_of example_Parse ((200, body_heat_off), seconds 1030) =
       Some \<lparr> temp = 70.5, targetTemp = 70, isHeatOn = False, blowerState = 0 \<rparr>"
    by code_simp
  have f: "final_tstat (Thermostat_Thermostat (seconds 985))
       [(True, tstat_with True 0 (seconds 625) False, []),
        (False, tstat_with True 0 (seconds 625) False\<lparr>failCount := 1\<rparr>, []),
        (True, tstat_with False 0 (seconds 1030) True, [])] =
     tstat_with False 0 (seconds 1030) True"
    by (simp add: final_tstat_def)
  have "StateChanged (tstat_with False 0 (seconds 1030) True)"
    using transition_flag [OF run] unfolding f l r by simp
  with run l r show ?thesis by blast
qed

section \<open>Failed polls\<close>






section \<open>Time since the transition before any transition\<close>

text \<open>
  Claim C6, as the code has it. The constructor dates the last transition six minutes
  (the tail window) before its own clock reading. Until a poll flags a transition,
  \<^verbatim>\<open>GetTimeSinceTransition\<close> therefore returns the tail window plus the time
  elapsed since construction, which is the tail window only at the instant of
  construction and more afterwards; with a clock that does not run backwards it is
  never below the tail window, and a blower that holds no latch is left alone: no
  command, no latch. This is for a constructor reading other than the tail window
  itself, where the dated transition is not the clock's epoch.
\<close>

theorem time_since_transition_at_startup:
  assumes "polls Parse ps (Thermostat_Thermostat t0) = Returns rs"
    and "\<forall>r\<in>set rs. \<not> stateChanged (fst (snd r))"
    and "t0 \<noteq> k_runBlowerFanAfterHeatOff"
  shows "GetTimeSinceTransition (final_tstat (Thermostat_Thermostat t0) rs) now =
           k_runBlowerFanAfterHeatOff + (now - t0)
       \<and> (t0 \<le> now \<longrightarrow>
            k_runBlowerFanAfterHeatOff
              \<le> GetTimeSinceTransition (final_tstat (Thermostat_Thermostat t0) rs) now
            \<and> FurnaceBlower_Update (final_tstat (Thermostat_Thermostat t0) rs) now
                FurnaceBlower_FurnaceBlower = (FurnaceBlower_FurnaceBlower, []))"
proof -
  let ?t = "final_tstat (Thermostat_Thermostat t0) rs"
  have l: "lastTransitionTime ?t = t0 - k_runBlowerFanAfterHeatOff"
    using lastTransitionTime_polls [OF assms(1,2)] by (simp add: Thermostat_Thermostat_def)
  have g: "GetTimeSinceTransition ?t now = k_runBlowerFanAfterHeatOff + (now - t0)"
    using assms(3) by (simp add: GetTimeSinceTransition_def l)
  have s: "\<not> stateChanged ?t"
  proof (cases "rs = []")
    case True
    then show ?thesis by (simp add: final_tstat_def Thermostat_Thermostat_def)
  next
    case False
    then have "last rs \<in> set rs" by simp
    with assms(2) False show ?thesis by (auto simp: final_tstat_def)
  qed
  have "\<not> override_condition ?t now" if "t0 \<le> now"
    using that s g by (simp add: override_condition_def StateChanged_def)
  then have "FurnaceBlower_Update ?t now FurnaceBlower_FurnaceBlower =
      (FurnaceBlower_FurnaceBlower, [])" if "t0 \<le> now"
    using that by (simp add: FurnaceBlower_Update_def FurnaceBlower_FurnaceBlower_def)
  with g show ?thesis by simp
qed

theorem time_since_transition_at_startup_witness:
  "polls example_Parse [((200, body_heat_off), seconds 1015)] (Thermostat_Thermostat (seconds 1000))
     = Returns [(True, tstat_with False 0 (seconds 640) False, [])]
   \<and> seconds 1000 \<noteq> k_runBlowerFanAfterHeatOff
   \<and> GetTimeSinceTransition (tstat_with False 0 (seconds 640) False) (seconds 1015) =
       k_runBlowerFanAfterHeatOff + (seconds 1015 - seconds 1000)
   \<and> FurnaceBlower_Update (tstat_with False 0 (seconds 640) False) (seconds 1015)
        FurnaceBlower_FurnaceBlower = (FurnaceBlower_FurnaceBlower, [])"
proof -
  let ?rs = "[(True, tstat_with False 0 (seconds 640) False, [])]"
  have run: "polls example_Parse [((200, body_heat_off), seconds 1015)]
      (Thermostat_Thermostat (seconds 1000)) = Returns ?rs"
    by code_simp
  have none: "\<forall>r\<in>set ?rs. \<not> stateChanged (fst (snd r))"
    by (simp add: tstat_with_def)
  have ep: "seconds 1000 \<noteq> k_runBlowerFanAfterHeatOff"
    by (simp add: seconds_def k_runBlowerFanAfterHeatOff_def)
  have le: "seconds 1000 \<le> seconds 1015" by (simp add: seconds_def)
  have f: "final_tstat (Thermostat_Thermostat (seconds 1000)) ?rs =
      tstat_with False 0 (seconds 640) False"
    by (simp add: final_tstat_def)
  from time_since_transition_at_startup [OF run none ep, of "seconds 1015"] le
  show ?thesis unfolding f using run ep by blast
qed

text \<open>
  The claim as written fails: fifteen seconds after construction, after one decoded
  poll and no transition, the value is 375 seconds and not the 360 of the tail window.
\<close>

theorem time_since_transition_not_window:
  "polls example_Parse [((200, body_heat_off), seconds 1015)] (Thermostat_Thermostat (seconds 1000))
     = Returns [(True, tstat_with False 0 (seconds 640) False, [])]
   \<and> GetTimeSinceTransition (tstat_with False 0 (seconds 640) False) (seconds 1015) = seconds 375
   \<and> GetTimeSinceTransition (tstat_with False 0 (seconds 640) False) (seconds 1015)
       \<noteq> k_runBlowerFanAfterHeatOff"
  by code_simp

section \<open>Decoding a body\<close>

text \<open>
  Claim C9. The claim is that every body with status 200 is decoded safely, a field of
  the wrong JSON type being counted as a failed poll. The code checks that the four
  fields are present and then reads them with \<^verbatim>\<open>GetFloat\<close> and \<^verbatim>\<open>GetInt\<close>,
  which assert the type: on a body whose \<open>temp\<close> is a string, and on a body that is
  an array, \<^verbatim>\<open>ParseState\<close> and with it \<^verbatim>\<open>Update\<close> abort. A body with a field
  missing is counted as a failed poll, as the claim says.
\<close>

theorem decode_wrong_type_aborts:
  "ParseState example_Parse body_temp_string = Aborts
   \<and> Thermostat_Update example_Parse (200, body_temp_string) now tstat = Aborts
   \<and> Thermostat_Update example_Parse (200, body_array) now tstat = Aborts
   \<and> Thermostat_Update example_Parse (200, body_no_fmode) now tstat =
       Returns (False, tstat\<lparr>stateChanged := False, failCount := failCount tstat + 1\<rparr>,
         if (failCount tstat + 1) mod 6 = 0
         then [FailedToParseData (failCount tstat + 1) 200 body_no_fmode]
         else [])"
proof -
  have a: "ParseState example_Parse body_temp_string = Aborts"
    by code_simp
  have b: "ParseState example_Parse body_array = Aborts"
    by code_simp
  have c: "ParseState example_Parse body_no_fmode = Returns None"
    by code_simp
  have "Thermostat_Update example_Parse (200, body_temp_string) now tstat = Aborts"
    by (simp add: Thermostat_Update_def a)
  moreover have "Thermostat_Update example_Parse (200, body_array) now tstat = Aborts"
    by (simp add: Thermostat_Update_def b)
  moreover have "failed_poll example_Parse ((200, body_no_fmode), now)"
    by (simp add: failed_poll_def c)
  from Update_failed [OF this, of tstat]
  have "Thermostat_Update example_Parse (200, body_no_fmode) now tstat =
       Returns (False, tstat\<lparr>stateChanged := False, failCount := failCount tstat + 1\<rparr>,
         if (failCount tstat + 1) mod 6 = 0
         then [FailedToParseData (failCount tstat + 1) 200 body_no_fmode]
         else [])"
    by simp
  ultimately show ?thesis using a by blast
qed

section \<open>The sleep of the loop\<close>

text \<open>
  Claim C7. A pass of the loop that took \<open>e\<close> sleeps \<open>max 0 (p - e)\<close>, where
  \<open>p\<close> is the poll period: never a negative time, and no time at all when the pass
  took the period or longer. The time slept is a function of the pass's own two clock
  readings only: nothing of an overrun is carried to the next pass.
\<close>

theorem scheduler_sleep:
  assumes "loop_iteration Parse it st = Returns (st', calls, logs, slept)"
  shows "slept = max 0 (k_thermostatPollFrequencySeconds - (loopEndTime it - loopStartTime it))
       \<and> 0 \<le> slept
       \<and> (k_thermostatPollFrequencySeconds \<le> loopEndTime it - loopStartTime it \<longrightarrow> slept = 0)"
  using assms
  by (auto simp: loop_iteration_def and_then_Returns_iff Let_def sleep_for_def)

theorem scheduler_sleep_witness:
  "loop_iteration example_Parse (example_iteration (500, []) (seconds 1000) (seconds 1021))
     (Thermostat_Thermostat (seconds 1000), main_fans) =
     Returns ((Thermostat_Thermostat (seconds 1000)\<lparr>failCount := 1\<rparr>, main_fans), [], [], 0)
   \<and> k_thermostatPollFrequencySeconds \<le> seconds 1021 - seconds 1000
   \<and> loop_iteration example_Parse (example_iteration (500, []) (seconds 1000) (seconds 1004))
     (Thermostat_Thermostat (seconds 1000), main_fans) =
     Returns ((Thermostat_Thermostat (seconds 1000)\<lparr>failCount := 1\<rparr>, main_fans), [], [],
              seconds 11)"
proof -
  let ?st = "(Thermostat_Thermostat (seconds 1000), main_fans)"
  let ?st' = "(Thermostat_Thermostat (seconds 1000)\<lparr>failCount := 1\<rparr>, main_fans)"
  obtain s1 where r1: "loop_iteration example_Parse (example_iteration (500, []) (seconds 1000) (seconds 1021))
      ?st = Returns (?st', [], [], s1)"
    by (simp add: loop_iteration_def example_iteration_def Thermostat_Update_def
        Thermostat_Thermostat_def Let_def)
  obtain s2 where r2: "loop_iteration example_Parse (example_iteration (500, []) (seconds 1000) (seconds 1004))
      ?st = Returns (?st', [], [], s2)"
    by (simp add: loop_iteration_def example_iteration_def Thermostat_Update_def
        Thermostat_Thermostat_def Let_def)
  have k: "k_thermostatPollFrequencySeconds \<le> seconds 1021 - seconds 1000"
    by (simp add: k_thermostatPollFrequencySeconds_def seconds_def)
  have "s1 = 0"
    using scheduler_sleep [OF r1] k by (simp add: example_iteration_def)
  moreover have "s2 = seconds 11"
    using scheduler_sleep [OF r2]
    by (simp add: example_iteration_def k_thermostatPollFrequencySeconds_def seconds_def)
  ultimately show ?thesis using r1 r2 k by simp
qed

section \<open>The blower mode the controllers see\<close>

lemma loop_iteration_cases:
  assumes "loop_iteration Parse it (tstat, fans) = Returns ((tstat', fans'), calls, logs, slept)"
  shows "(reading_of Parse (thermostatData it, updateTime it) = None \<and> fans' = fans \<and> calls = [])
       \<or> (\<exists>new. reading_of Parse (thermostatData it, updateTime it) = Some new \<and>
             previousState tstat' = Some new \<and>
             (fans', calls) = update_fans (fanEnv it) tstat' 0 fans)"
proof -
  from assms obtain r where
    u0: "Thermostat_Update Parse (thermostatData it) (updateTime it) tstat = Returns r"
    and t: "tstat' = fst (snd r)"
    and f: "fans' = fst (if fst r then update_fans (fanEnv it) (fst (snd r)) 0 fans else (fans, []))"
    and c: "calls = snd (if fst r then update_fans (fanEnv it) (fst (snd r)) 0 fans else (fans, []))"
    by (auto simp: loop_iteration_def and_then_Returns_iff Let_def)
  from u0 t have
    u: "Thermostat_Update Parse (thermostatData it) (updateTime it) tstat =
          Returns (fst r, tstat', snd (snd r))"
    by simp
  show ?thesis
  proof (cases "fst r")
    case True
    with Update_result [OF u] obtain new where
      "reading_of Parse (thermostatData it, updateTime it) = Some new"
      "previousState tstat' = Some new" by auto
    moreover from True f c t have "(fans', calls) = update_fans (fanEnv it) tstat' 0 fans"
      by simp
    ultimately show ?thesis by blast
  next
    case False
    with Update_result [OF u] f c show ?thesis by simp
  qed
qed

text \<open>
  Claim C10, as the code has it. \<^verbatim>\<open>GetBlowerState\<close> returns \<open>-1\<close> exactly when no
  reading is stored or the stored reading's own blower mode is \<open>-1\<close> (the mode is
  whatever 32-bit integer the thermostat sent as \<open>fmode\<close>); after any run of polls
  from the start of the process no reading is stored exactly when no poll of the run
  succeeded. A pass of the loop ticks the fans only when its poll decoded a reading,
  and then with that reading stored, so the furnace blower sees the \<open>fmode\<close> that was
  decoded. When that mode is not \<open>-1\<close>, a tick in the override branch with no latch
  held does capture it.
\<close>

theorem blower_state_sentinel:
  "(GetBlowerState tstat = - 1 \<longleftrightarrow>
      previousState tstat = None \<or> (\<exists>s. previousState tstat = Some s \<and> blowerState s = - 1))
   \<and> (polls Parse ps (Thermostat_Thermostat t0) = Returns rs \<longrightarrow>
        (previousState (final_tstat (Thermostat_Thermostat t0) rs) = None
           \<longleftrightarrow> (\<forall>r\<in>set rs. \<not> fst r)))
   \<and> (loop_iteration Parse it (tstat, fans) = Returns ((tstat', fans'), calls, logs, slept) \<longrightarrow>
        (reading_of Parse (thermostatData it, updateTime it) = None \<and> fans' = fans \<and> calls = [])
        \<or> (\<exists>new. reading_of Parse (thermostatData it, updateTime it) = Some new \<and>
              previousState tstat' = Some new \<and>
              GetBlowerState tstat' = blowerState new \<and>
              (fans', calls) = update_fans (fanEnv it) tstat' 0 fans))
   \<and> (previousState tstat = Some s \<and> blowerState s \<noteq> - 1 \<and> latchedState blower = None \<and>
        override_condition tstat now \<longrightarrow>
        latchedState (fst (FurnaceBlower_Update tstat now blower)) = Some (blowerState s))"
proof (intro conjI impI)
  show "GetBlowerState tstat = - 1 \<longleftrightarrow>
      previousState tstat = None \<or> (\<exists>s. previousState tstat = Some s \<and> blowerState s = - 1)"
    by (cases "previousState tstat") (simp_all add: GetBlowerState_def)
next
  assume "polls Parse ps (Thermostat_Thermostat t0) = Returns rs"
  from previousState_None_polls [OF this]
  show "previousState (final_tstat (Thermostat_Thermostat t0) rs) = None
           \<longleftrightarrow> (\<forall>r\<in>set rs. \<not> fst r)"
    by (simp add: Thermostat_Thermostat_def)
next
  assume "loop_iteration Parse it (tstat, fans) = Returns ((tstat', fans'), calls, logs, slept)"
  from loop_iteration_cases [OF this]
  show "(reading_of Parse (thermostatData it, updateTime it) = None \<and> fans' = fans \<and> calls = [])
        \<or> (\<exists>new. reading_of Parse (thermostatData it, updateTime it) = Some new \<and>
              previousState tstat' = Some new \<and>
              GetBlowerState tstat' = blowerState new \<and>
              (fans', calls) = update_fans (fanEnv it) tstat' 0 fans)"
    by (auto simp: GetBlowerState_def)
next
  assume "previousState tstat = Some s \<and> blowerState s \<noteq> - 1 \<and> latchedState blower = None \<and>
        override_condition tstat now"
  then show "latchedState (fst (FurnaceBlower_Update tstat now blower)) = Some (blowerState s)"
    by (simp add: FurnaceBlower_Update_def GetBlowerState_def Let_def)
qed

theorem blower_state_sentinel_witness:
  "polls example_Parse
     [((500, []), seconds 1000), ((200, body_heat_off), seconds 1015)]
     (Thermostat_Thermostat (seconds 985)) =
     Returns [(False, Thermostat_Thermostat (seconds 985)\<lparr>failCount := 1\<rparr>, []),
              (True, tstat_with False 0 (seconds 625) False, [])]
   \<and> previousState (tstat_with False 0 (seconds 625) False) \<noteq> None
   \<and> GetBlowerState (tstat_with False 0 (seconds 625) False) \<noteq> - 1
   \<and> loop_iteration example_Parse
        (example_iteration (200, body_heat_off) (seconds 1015) (seconds 1016))
        (tstat_with True 0 (seconds 1000) False, main_fans) =
       Returns ((tstat_with False 0 (seconds 1015) True,
                 [CeilingFanObj CeilingFan_CeilingFan, CeilingFanObj CeilingFan_CeilingFan,
                  CeilingFanObj CeilingFan_CeilingFan,
                  FurnaceBlowerObj \<lparr> latchedState = Some 0 \<rparr>]),
                [SetBlowerState 2], [], seconds 14)
   \<and> (\<exists>new. reading_of example_Parse ((200, body_heat_off), seconds 1015) = Some new \<and>
          previousState (tstat_with False 0 (seconds 1015) True) = Some new \<and>
          GetBlowerState (tstat_with False 0 (seconds 1015) True) = blowerState new)
   \<and> latchedState (fst (FurnaceBlower_Update (tstat_with False 0 (seconds 1015) True)
        (seconds 1015) FurnaceBlower_FurnaceBlower)) = Some 0"
proof -
  let ?T = "tstat_with False 0 (seconds 625) False"
  let ?rs = "[(False, Thermostat_Thermostat (seconds 985)\<lparr>failCount := 1\<rparr>, []),
              (True, ?T, [])]"
  let ?U = "tstat_with False 0 (seconds 1015) True"
  let ?r = "\<lparr> temp = 70.5, targetTemp = 70, isHeatOn = False, blowerState = 0 \<rparr>"
  have run: "polls example_Parse
     [((500, []), seconds 1000), ((200, body_heat_off), seconds 1015)]
     (Thermostat_Thermostat (seconds 985)) = Returns ?rs"
    by code_simp
  have f: "final_tstat (Thermostat_Thermostat (seconds 985)) ?rs = ?T"
    by (simp add: final_tstat_def)
  have a: "previousState ?T \<noteq> None"
    using blower_state_sentinel [of ?T example_Parse
        "[((500, []), seconds 1000), ((200, body_heat_off), seconds 1015)]" "seconds 985" ?rs]
      run unfolding f by simp
  have p: "previousState ?T = Some ?r" by (simp add: tstat_with_def)
  have b: "GetBlowerState ?T \<noteq> - 1"
    using blower_state_sentinel [of ?T] p by simp
  have it: "loop_iteration example_Parse
        (example_iteration (200, body_heat_off) (seconds 1015) (seconds 1016))
        (tstat_with True 0 (seconds 1000) False, main_fans) =
       Returns ((?U,
                 [CeilingFanObj CeilingFan_CeilingFan, CeilingFanObj CeilingFan_CeilingFan,
                  CeilingFanObj CeilingFan_CeilingFan,
                  FurnaceBlowerObj \<lparr> latchedState = Some 0 \<rparr>]),
                [SetBlowerState 2], [], seconds 14)"
    by code_simp
  have pu: "previousState ?U = Some ?r \<and> blowerState ?r \<noteq> - 1 \<and>
      latchedState FurnaceBlower_FurnaceBlower = None \<and> override_condition ?U (seconds 1015)"
    by code_simp
  have c: "latchedState (fst (FurnaceBlower_Update ?U (seconds 1015) FurnaceBlower_FurnaceBlower))
      = Some 0"
    using blower_state_sentinel [of ?U _ _ _ _ _ _ _ _ _ _ _ ?r FurnaceBlower_FurnaceBlower
        "seconds 1015"] pu by simp
  let ?it = "example_iteration (200, body_heat_off) (seconds 1015) (seconds 1016)"
  let ?fans' = "[CeilingFanObj CeilingFan_CeilingFan, CeilingFanObj CeilingFan_CeilingFan,
          CeilingFanObj CeilingFan_CeilingFan, FurnaceBlowerObj \<lparr> latchedState = Some 0 \<rparr>]"
  have td: "(thermostatData ?it, updateTime ?it) = ((200, body_heat_off), seconds 1015)"
    by (simp add: example_iteration_def)
  have "(reading_of example_Parse (thermostatData ?it, updateTime ?it) = None \<and>
           ?fans' = main_fans \<and> [SetBlowerState 2] = [])
        \<or> (\<exists>new. reading_of example_Parse (thermostatData ?it, updateTime ?it) = Some new \<and>
              previousState ?U = Some new \<and>
              GetBlowerState ?U = blowerState new \<and>
              (?fans', [SetBlowerState 2]) = update_fans (fanEnv ?it) ?U 0 main_fans)"
    using blower_state_sentinel [where Parse = example_Parse and it = ?it
        and tstat = "tstat_with True 0 (seconds 1000) False" and fans = main_fans
        and tstat' = ?U and fans' = ?fans'
        and calls = "[SetBlowerState 2]" and logs = "[]" and slept = "seconds 14"] it
    by blast
  then have d: "\<exists>new. reading_of example_Parse ((200, body_heat_off), seconds 1015) = Some new \<and>
          previousState ?U = Some new \<and> GetBlowerState ?U = blowerState new"
    unfolding td by blast
  from run a b it c d show ?thesis by blast
qed

text \<open>
  The claim as written fails: a thermostat that answers \<open>fmode\<close> \<open>-1\<close> is decoded,
  the fans are ticked, \<^verbatim>\<open>GetBlowerState\<close> returns \<open>-1\<close> with a reading stored, and
  the override branch of the blower captures no latch.
\<close>

theorem blower_state_sentinel_after_decode:
  "polls example_Parse
     [((200, body_heat_on), seconds 1000), ((200, body_fmode_minus_one), seconds 1015)]
     (Thermostat_Thermostat (seconds 985)) =
     Returns [(True, tstat_with True 0 (seconds 625) False, []),
              (True, tstat_with False (- 1) (seconds 1015) True, [])]
   \<and> GetBlowerState (tstat_with False (- 1) (seconds 1015) True) = - 1
   \<and> FurnaceBlower_Update (tstat_with False (- 1) (seconds 1015) True) (seconds 1015)
        FurnaceBlower_FurnaceBlower = (FurnaceBlower_FurnaceBlower, [SetBlowerState 2])"
  by code_simp

section \<open>The ceiling fan\<close>

lemma CeilingFan_Update_applied:
  assumes "fanStateUpdatedSinceLastTransition fan" and "\<not> StateChanged tstat"
  shows "CeilingFan_Update post_ok tstat now fan = (fan, [])"
  using assms by (simp add: CeilingFan_Update_def)

lemma CeilingFan_Update_calls:
  "snd (CeilingFan_Update post_ok tstat now fan) = [] \<or>
   snd (CeilingFan_Update post_ok tstat now fan) =
     [SetFanSpeed (if isFurnaceOn tstat then k_heatOnFanSpeed else k_heatOffFanSpeed)]"
  by (simp add: CeilingFan_Update_def Let_def)

lemma CeilingFan_Update_flag:
  assumes "snd (CeilingFan_Update post_ok tstat now fan) = [c]"
  shows "fanStateUpdatedSinceLastTransition (fst (CeilingFan_Update post_ok tstat now fan))
           = post_ok c"
  using assms by (auto simp: CeilingFan_Update_def Let_def split: if_splits)

lemma CeilingFan_Update_retry:
  assumes "\<not> StateChanged tstat" and "\<not> StateChanged tstat'"
    and "snd (CeilingFan_Update post_ok tstat now fan) \<noteq> []"
    and "\<not> fanStateUpdatedSinceLastTransition (fst (CeilingFan_Update post_ok tstat now fan))"
    and "isFurnaceOn tstat' = isFurnaceOn tstat"
    and "lastTransitionTime tstat' = lastTransitionTime tstat"
    and "now \<le> now'"
  shows "snd (CeilingFan_Update post_ok' tstat' now'
                (fst (CeilingFan_Update post_ok tstat now fan)))
           = snd (CeilingFan_Update post_ok tstat now fan)"
proof -
  from assms(1,3) have d: "\<not> fanStateUpdatedSinceLastTransition fan"
    and g: "GetTimeSinceTransition tstat now >
              (if isFurnaceOn tstat then k_ceilingFanOnDelay else k_ceilingFanOffDelay)"
    by (auto simp: CeilingFan_Update_def Let_def split: if_splits)
  have pos: "0 \<le> (if isFurnaceOn tstat then k_ceilingFanOnDelay else k_ceilingFanOffDelay)"
    by (simp add: k_ceilingFanOnDelay_def k_ceilingFanOffDelay_def seconds_def)
  from g pos have nz: "lastTransitionTime tstat \<noteq> 0"
    by (auto simp: GetTimeSinceTransition_def split: if_splits)
  with g assms(6,7) have g': "GetTimeSinceTransition tstat' now' >
              (if isFurnaceOn tstat then k_ceilingFanOnDelay else k_ceilingFanOffDelay)"
    by (simp add: GetTimeSinceTransition_def)
  from assms(1) d g have "snd (CeilingFan_Update post_ok tstat now fan) =
      [SetFanSpeed (if isFurnaceOn tstat then k_heatOnFanSpeed else k_heatOffFanSpeed)]"
    by (simp add: CeilingFan_Update_def Let_def)
  moreover from assms(2,4,5) g'
  have "snd (CeilingFan_Update post_ok' tstat' now'
                (fst (CeilingFan_Update post_ok tstat now fan))) =
      [SetFanSpeed (if isFurnaceOn tstat then k_heatOnFanSpeed else k_heatOffFanSpeed)]"
    by (simp add: CeilingFan_Update_def [of post_ok'] Let_def)
  ultimately show ?thesis by simp
qed

lemma length_CeilingFan_ticks [simp]: "length (CeilingFan_ticks es fan) = length es"
  by (induction es arbitrary: fan) (simp_all add: Let_def)

lemma CeilingFan_ticks_nth_0:
  "es \<noteq> [] \<Longrightarrow>
   CeilingFan_ticks es fan ! 0 =
     CeilingFan_Update (fst (es ! 0)) (fst (snd (es ! 0))) (snd (snd (es ! 0))) fan"
  by (cases es) (simp_all add: Let_def)

lemma CeilingFan_ticks_nth_Suc:
  "Suc i < length es \<Longrightarrow>
   CeilingFan_ticks es fan ! Suc i =
     CeilingFan_Update (fst (es ! Suc i)) (fst (snd (es ! Suc i))) (snd (snd (es ! Suc i)))
       (fst (CeilingFan_ticks es fan ! i))"
proof (induction es arbitrary: fan i)
  case Nil
  then show ?case by simp
next
  case (Cons e es)
  show ?case
  proof (cases i)
    case 0
    with Cons.prems have "es \<noteq> []" by auto
    with 0 show ?thesis by (simp add: Let_def CeilingFan_ticks_nth_0)
  next
    case (Suc k)
    with Cons.prems have "Suc k < length es" by simp
    from Cons.IH [OF this] Suc show ?thesis by (simp add: Let_def)
  qed
qed

lemma CeilingFan_ticks_nth_calls:
  assumes "i < length es"
  shows "snd (CeilingFan_ticks es fan ! i) = [] \<or>
         snd (CeilingFan_ticks es fan ! i) =
           [SetFanSpeed (if isFurnaceOn (fst (snd (es ! i)))
                         then k_heatOnFanSpeed else k_heatOffFanSpeed)]"
proof (cases i)
  case 0
  with assms have "es \<noteq> []" by auto
  with 0 show ?thesis by (simp add: CeilingFan_ticks_nth_0 CeilingFan_Update_calls)
next
  case (Suc k)
  with assms show ?thesis by (simp add: CeilingFan_ticks_nth_Suc CeilingFan_Update_calls)
qed

lemma CeilingFan_ticks_nth_flag:
  assumes "i < length es" and "snd (CeilingFan_ticks es fan ! i) = [c]"
  shows "fanStateUpdatedSinceLastTransition (fst (CeilingFan_ticks es fan ! i)) = fst (es ! i) c"
proof (cases i)
  case 0
  with assms have "es \<noteq> []" by auto
  with 0 assms(2) show ?thesis by (simp add: CeilingFan_ticks_nth_0 CeilingFan_Update_flag)
next
  case (Suc k)
  with assms show ?thesis by (simp add: CeilingFan_ticks_nth_Suc CeilingFan_Update_flag)
qed

lemma CeilingFan_ticks_applied:
  assumes "fanStateUpdatedSinceLastTransition fan"
    and "\<forall>e\<in>set es. \<not> StateChanged (fst (snd e))"
  shows "\<forall>r\<in>set (CeilingFan_ticks es fan). r = (fan, [])"
  using assms
  by (induction es arbitrary: fan) (simp_all add: Let_def CeilingFan_Update_applied)

lemma CeilingFan_ticks_at_most_one:
  assumes "\<forall>e\<in>set es. \<not> StateChanged (fst (snd e))"
  shows "length (filter applied (CeilingFan_ticks es fan)) \<le> 1"
  using assms
proof (induction es arbitrary: fan)
  case Nil
  then show ?case by simp
next
  case (Cons e es)
  let ?r = "CeilingFan_Update (fst e) (fst (snd e)) (snd (snd e)) fan"
  from Cons.prems have st: "\<forall>e\<in>set es. \<not> StateChanged (fst (snd e))" by simp
  show ?case
  proof (cases "applied ?r")
    case True
    then have "fanStateUpdatedSinceLastTransition (fst ?r)" by (simp add: applied_def)
    from CeilingFan_ticks_applied [OF this st]
    have "\<forall>r\<in>set (CeilingFan_ticks es (fst ?r)). \<not> applied r"
      by (auto simp: applied_def)
    then have "filter applied (CeilingFan_ticks es (fst ?r)) = []"
      by (simp add: filter_empty_conv)
    with True show ?thesis by (simp add: Let_def)
  next
    case False
    with Cons.IH [OF st, of "fst ?r"] show ?thesis by (simp add: Let_def)
  qed
qed

lemma CeilingFan_ticks_after_applied:
  assumes st: "\<forall>e\<in>set es. \<not> StateChanged (fst (snd e))"
    and a: "applied (CeilingFan_ticks es fan ! i)"
    and ij: "i < j" and j: "j < length es"
  shows "CeilingFan_ticks es fan ! j = (fst (CeilingFan_ticks es fan ! i), [])"
  using ij j
proof (induction j)
  case 0
  then show ?case by simp
next
  case (Suc k)
  from a have fl: "fanStateUpdatedSinceLastTransition (fst (CeilingFan_ticks es fan ! i))"
    by (simp add: applied_def)
  have k: "fst (CeilingFan_ticks es fan ! k) = fst (CeilingFan_ticks es fan ! i)"
  proof (cases "i = k")
    case True
    then show ?thesis by simp
  next
    case False
    with Suc.prems have "i < k" "k < length es" by simp_all
    with Suc.IH show ?thesis by simp
  qed
  from Suc.prems(2) have "es ! Suc k \<in> set es" by simp
  with st have "\<not> StateChanged (fst (snd (es ! Suc k)))" by blast
  with fl show ?case
    by (simp add: CeilingFan_ticks_nth_Suc [OF Suc.prems(2)] k CeilingFan_Update_applied)
qed

text \<open>
  Claim C2. Over a run of ticks after successful polls none of which flagged a
  transition, a ceiling fan has at most one speed command accepted: once a command is
  accepted, which sets \<^verbatim>\<open>fanStateUpdatedSinceLastTransition\<close>, no later tick of the
  run posts a command. Every command posted is the speed for the current heat call.
  The flag after a posted command is the device's answer, so a refused command leaves
  it false, and the next tick of the run (same heat call, same transition time, a
  clock that has not gone back) posts the command again. The tick after a poll that
  flags a transition clears the flag and posts nothing.
\<close>

theorem ceiling_fan_one_command_per_run:
  assumes "\<forall>e\<in>set ticks. \<not> StateChanged (fst (snd e))"
  shows "length (filter applied (CeilingFan_ticks ticks fan)) \<le> 1
     \<and> (\<forall>i j. i < j \<and> j < length ticks \<and> applied (CeilingFan_ticks ticks fan ! i) \<longrightarrow>
           snd (CeilingFan_ticks ticks fan ! j) = [])
     \<and> (\<forall>i<length ticks.
           snd (CeilingFan_ticks ticks fan ! i) = [] \<or>
           snd (CeilingFan_ticks ticks fan ! i) =
             [SetFanSpeed (if isFurnaceOn (fst (snd (ticks ! i)))
                           then k_heatOnFanSpeed else k_heatOffFanSpeed)])
     \<and> (\<forall>i<length ticks. \<forall>c. snd (CeilingFan_ticks ticks fan ! i) = [c] \<longrightarrow>
           fanStateUpdatedSinceLastTransition (fst (CeilingFan_ticks ticks fan ! i))
             = fst (ticks ! i) c)
     \<and> (\<forall>i. Suc i < length ticks \<and>
              snd (CeilingFan_ticks ticks fan ! i) \<noteq> [] \<and>
              \<not> fanStateUpdatedSinceLastTransition (fst (CeilingFan_ticks ticks fan ! i)) \<and>
              isFurnaceOn (fst (snd (ticks ! Suc i))) = isFurnaceOn (fst (snd (ticks ! i))) \<and>
              lastTransitionTime (fst (snd (ticks ! Suc i)))
                = lastTransitionTime (fst (snd (ticks ! i))) \<and>
              snd (snd (ticks ! i)) \<le> snd (snd (ticks ! Suc i)) \<longrightarrow>
           snd (CeilingFan_ticks ticks fan ! Suc i) = snd (CeilingFan_ticks ticks fan ! i))
     \<and> (StateChanged tstat \<longrightarrow>
           CeilingFan_Update post_ok tstat now fan' =
             (fan'\<lparr>fanStateUpdatedSinceLastTransition := False\<rparr>, []))"
proof (intro conjI allI impI)
  show "length (filter applied (CeilingFan_ticks ticks fan)) \<le> 1"
    by (rule CeilingFan_ticks_at_most_one [OF assms])
next
  fix i j
  assume "i < j \<and> j < length ticks \<and> applied (CeilingFan_ticks ticks fan ! i)"
  then show "snd (CeilingFan_ticks ticks fan ! j) = []"
    using CeilingFan_ticks_after_applied [OF assms, of fan i j] by simp
next
  fix i assume "i < length ticks"
  then show "snd (CeilingFan_ticks ticks fan ! i) = [] \<or>
           snd (CeilingFan_ticks ticks fan ! i) =
             [SetFanSpeed (if isFurnaceOn (fst (snd (ticks ! i)))
                           then k_heatOnFanSpeed else k_heatOffFanSpeed)]"
    by (rule CeilingFan_ticks_nth_calls)
next
  fix i c
  assume "i < length ticks" and "snd (CeilingFan_ticks ticks fan ! i) = [c]"
  then show "fanStateUpdatedSinceLastTransition (fst (CeilingFan_ticks ticks fan ! i))
             = fst (ticks ! i) c"
    by (rule CeilingFan_ticks_nth_flag)
next
  fix i
  assume h: "Suc i < length ticks \<and>
              snd (CeilingFan_ticks ticks fan ! i) \<noteq> [] \<and>
              \<not> fanStateUpdatedSinceLastTransition (fst (CeilingFan_ticks ticks fan ! i)) \<and>
              isFurnaceOn (fst (snd (ticks ! Suc i))) = isFurnaceOn (fst (snd (ticks ! i))) \<and>
              lastTransitionTime (fst (snd (ticks ! Suc i)))
                = lastTransitionTime (fst (snd (ticks ! i))) \<and>
              snd (snd (ticks ! i)) \<le> snd (snd (ticks ! Suc i))"
  then have lt: "Suc i < length ticks" and i: "i < length ticks" by simp_all
  from i lt assms have s0: "\<not> StateChanged (fst (snd (ticks ! i)))"
    and s1: "\<not> StateChanged (fst (snd (ticks ! Suc i)))" by simp_all
  obtain f0 where
    r: "CeilingFan_ticks ticks fan ! i =
          CeilingFan_Update (fst (ticks ! i)) (fst (snd (ticks ! i))) (snd (snd (ticks ! i))) f0"
  proof (cases i)
    case 0
    with i have "ticks \<noteq> []" by auto
    with 0 that [of fan] show ?thesis by (simp add: CeilingFan_ticks_nth_0)
  next
    case (Suc k)
    with i that [of "fst (CeilingFan_ticks ticks fan ! k)"] show ?thesis
      by (simp add: CeilingFan_ticks_nth_Suc)
  qed
  from h show "snd (CeilingFan_ticks ticks fan ! Suc i) = snd (CeilingFan_ticks ticks fan ! i)"
    unfolding CeilingFan_ticks_nth_Suc [OF lt] unfolding r
    by (intro CeilingFan_Update_retry [OF s0 s1]) (simp_all add: r)
next
  assume "StateChanged tstat"
  then show "CeilingFan_Update post_ok tstat now fan' =
      (fan'\<lparr>fanStateUpdatedSinceLastTransition := False\<rparr>, [])"
    by (simp add: CeilingFan_Update_def)
qed

theorem ceiling_fan_one_command_per_run_witness:
  "CeilingFan_ticks
     [(\<lambda>c. False, tstat_with False 0 (seconds 1000) False, seconds 1181),
      (\<lambda>c. True, tstat_with False 0 (seconds 1000) False, seconds 1196),
      (\<lambda>c. True, tstat_with False 0 (seconds 1000) False, seconds 1211)]
     CeilingFan_CeilingFan =
     [(\<lparr> fanStateUpdatedSinceLastTransition = False \<rparr>, [SetFanSpeed 1]),
      (\<lparr> fanStateUpdatedSinceLastTransition = True \<rparr>, [SetFanSpeed 1]),
      (\<lparr> fanStateUpdatedSinceLastTransition = True \<rparr>, [])]
   \<and> length (filter applied
        [(\<lparr> fanStateUpdatedSinceLastTransition = False \<rparr>, [SetFanSpeed 1]),
         (\<lparr> fanStateUpdatedSinceLastTransition = True \<rparr>, [SetFanSpeed 1]),
         (\<lparr> fanStateUpdatedSinceLastTransition = True \<rparr>, [])]) \<le> 1
   \<and> applied (\<lparr> fanStateUpdatedSinceLastTransition = True \<rparr>, [SetFanSpeed 1])
   \<and> snd (CeilingFan_ticks
        [(\<lambda>c. False, tstat_with False 0 (seconds 1000) False, seconds 1181),
         (\<lambda>c. True, tstat_with False 0 (seconds 1000) False, seconds 1196),
         (\<lambda>c. True, tstat_with False 0 (seconds 1000) False, seconds 1211)]
        CeilingFan_CeilingFan ! 2) = []
   \<and> snd (CeilingFan_ticks
        [(\<lambda>c. False, tstat_with False 0 (seconds 1000) False, seconds 1181),
         (\<lambda>c. True, tstat_with False 0 (seconds 1000) False, seconds 1196),
         (\<lambda>c. True, tstat_with False 0 (seconds 1000) False, seconds 1211)]
        CeilingFan_CeilingFan ! 1) = [SetFanSpeed 1]
   \<and> CeilingFan_Update (\<lambda>c. True) (tstat_with True 0 (seconds 1300) True) (seconds 1300)
        \<lparr> fanStateUpdatedSinceLastTransition = True \<rparr> =
       (\<lparr> fanStateUpdatedSinceLastTransition = False \<rparr>, [])"
proof -
  let ?T = "tstat_with False 0 (seconds 1000) False"
  let ?ticks = "[(\<lambda>c. False, ?T, seconds 1181), (\<lambda>c. True, ?T, seconds 1196),
      (\<lambda>c. True, ?T, seconds 1211)] :: fan_tick list"
  let ?tr = "[(\<lparr> fanStateUpdatedSinceLastTransition = False \<rparr>, [SetFanSpeed 1]),
      (\<lparr> fanStateUpdatedSinceLastTransition = True \<rparr>, [SetFanSpeed 1]),
      (\<lparr> fanStateUpdatedSinceLastTransition = True \<rparr>, [])]"
  have st: "\<forall>e\<in>set ?ticks. \<not> StateChanged (fst (snd e))"
    by (simp add: StateChanged_def tstat_with_def)
  have tr: "CeilingFan_ticks ?ticks CeilingFan_CeilingFan = ?tr"
    by (simp add: CeilingFan_Update_def CeilingFan_CeilingFan_def StateChanged_def
        isFurnaceOn_def GetTimeSinceTransition_def tstat_with_def seconds_def
        k_ceilingFanOffDelay_def k_heatOffFanSpeed_def Let_def)
  note th = ceiling_fan_one_command_per_run [OF st, of CeilingFan_CeilingFan
      "tstat_with True 0 (seconds 1300) True" "\<lambda>c. True" "seconds 1300"
      "\<lparr> fanStateUpdatedSinceLastTransition = True \<rparr>"]
  from th have one: "length (filter applied (CeilingFan_ticks ?ticks CeilingFan_CeilingFan)) \<le> 1"
    by (rule conjunct1)
  have ap: "applied (CeilingFan_ticks ?ticks CeilingFan_CeilingFan ! 1)"
    unfolding tr by (simp add: applied_def)
  from th have "\<forall>i j. i < j \<and> j < length ?ticks \<and>
      applied (CeilingFan_ticks ?ticks CeilingFan_CeilingFan ! i) \<longrightarrow>
      snd (CeilingFan_ticks ?ticks CeilingFan_CeilingFan ! j) = []"
    by blast
  from this [rule_format, of 1 2] ap
  have none: "snd (CeilingFan_ticks ?ticks CeilingFan_CeilingFan ! 2) = []"
    by simp
  from th have "\<forall>i. Suc i < length ?ticks \<and>
       snd (CeilingFan_ticks ?ticks CeilingFan_CeilingFan ! i) \<noteq> [] \<and>
       \<not> fanStateUpdatedSinceLastTransition
            (fst (CeilingFan_ticks ?ticks CeilingFan_CeilingFan ! i)) \<and>
       isFurnaceOn (fst (snd (?ticks ! Suc i))) = isFurnaceOn (fst (snd (?ticks ! i))) \<and>
       lastTransitionTime (fst (snd (?ticks ! Suc i)))
         = lastTransitionTime (fst (snd (?ticks ! i))) \<and>
       snd (snd (?ticks ! i)) \<le> snd (snd (?ticks ! Suc i)) \<longrightarrow>
       snd (CeilingFan_ticks ?ticks CeilingFan_CeilingFan ! Suc i)
         = snd (CeilingFan_ticks ?ticks CeilingFan_CeilingFan ! i)"
    by blast
  from this [rule_format, of 0]
  have "snd (CeilingFan_ticks ?ticks CeilingFan_CeilingFan ! Suc 0)
         = snd (CeilingFan_ticks ?ticks CeilingFan_CeilingFan ! 0)"
    unfolding tr by (simp add: seconds_def)
  then have again: "snd (CeilingFan_ticks ?ticks CeilingFan_CeilingFan ! 1) = [SetFanSpeed 1]"
    unfolding tr by simp
  have ap': "applied (\<lparr> fanStateUpdatedSinceLastTransition = True \<rparr>, [SetFanSpeed 1])"
    by (simp add: applied_def)
  from one have one': "length (filter applied ?tr) \<le> 1" unfolding tr .
  have "StateChanged (tstat_with True 0 (seconds 1300) True)"
    by (simp add: StateChanged_def tstat_with_def)
  with th have reset: "CeilingFan_Update (\<lambda>c. True) (tstat_with True 0 (seconds 1300) True)
      (seconds 1300) \<lparr> fanStateUpdatedSinceLastTransition = True \<rparr> =
       (\<lparr> fanStateUpdatedSinceLastTransition = False \<rparr>, [])"
    by simp
  from tr one' ap' none again reset show ?thesis by blast
qed

section \<open>The latch of the furnace blower\<close>

lemma FurnaceBlower_Update_no_latch:
  assumes "latchedState blower = None"
  shows "latchedState (fst (FurnaceBlower_Update tstat now blower)) =
     (if override_condition tstat now \<and> GetBlowerState tstat \<noteq> - 1
      then Some (GetBlowerState tstat) else None)"
  using assms by (simp add: FurnaceBlower_Update_def Let_def)

lemma FurnaceBlower_Update_latch:
  assumes "latchedState blower = Some l"
  shows "latchedState (fst (FurnaceBlower_Update tstat now blower)) =
     (if \<not> override_condition tstat now \<and> GetBlowerState tstat = l then None else Some l)"
  using assms by (auto simp: FurnaceBlower_Update_def Let_def)

lemma FurnaceBlower_Update_restore:
  assumes "latchedState blower = Some l" and "\<not> override_condition tstat now"
    and "GetBlowerState tstat \<noteq> l"
  shows "FurnaceBlower_Update tstat now blower = (blower, [SetBlowerState l])"
  using assms by (auto simp: FurnaceBlower_Update_def Let_def)

lemma length_FurnaceBlower_ticks [simp]: "length (FurnaceBlower_ticks es blower) = length es"
  by (induction es arbitrary: blower) (simp_all add: Let_def)

lemma FurnaceBlower_ticks_nth_0:
  "es \<noteq> [] \<Longrightarrow>
   FurnaceBlower_ticks es blower ! 0 = FurnaceBlower_Update (fst (es ! 0)) (snd (es ! 0)) blower"
  by (cases es) (simp_all add: Let_def)

lemma FurnaceBlower_ticks_nth_Suc:
  "Suc i < length es \<Longrightarrow>
   FurnaceBlower_ticks es blower ! Suc i =
     FurnaceBlower_Update (fst (es ! Suc i)) (snd (es ! Suc i))
       (fst (FurnaceBlower_ticks es blower ! i))"
proof (induction es arbitrary: blower i)
  case Nil
  then show ?case by simp
next
  case (Cons e es)
  show ?case
  proof (cases i)
    case 0
    with Cons.prems have "es \<noteq> []" by auto
    with 0 show ?thesis by (simp add: Let_def FurnaceBlower_ticks_nth_0)
  next
    case (Suc k)
    with Cons.prems have "Suc k < length es" by simp
    from Cons.IH [OF this] Suc show ?thesis by (simp add: Let_def)
  qed
qed

lemma FurnaceBlower_ticks_latch_origin:
  assumes "latchedState blower = None" and "i < length es"
    and "latchedState (fst (FurnaceBlower_ticks es blower ! i)) = Some l"
  shows "\<exists>k\<le>i. override_condition (fst (es ! k)) (snd (es ! k)) \<and>
            GetBlowerState (fst (es ! k)) = l \<and> l \<noteq> - 1 \<and>
            (\<forall>j. k \<le> j \<and> j \<le> i \<longrightarrow>
               latchedState (fst (FurnaceBlower_ticks es blower ! j)) = Some l)"
  using assms(2,3)
proof (induction i)
  case 0
  then have "es \<noteq> []" by auto
  from 0 FurnaceBlower_Update_no_latch [OF assms(1), of "fst (es ! 0)" "snd (es ! 0)"]
  have "override_condition (fst (es ! 0)) (snd (es ! 0)) \<and>
        GetBlowerState (fst (es ! 0)) = l \<and> l \<noteq> - 1"
    by (auto simp: FurnaceBlower_ticks_nth_0 [OF \<open>es \<noteq> []\<close>] split: if_splits)
  with 0 show ?case by auto
next
  case (Suc i)
  let ?tr = "FurnaceBlower_ticks es blower"
  from Suc.prems have i: "i < length es" by simp
  have step: "?tr ! Suc i =
      FurnaceBlower_Update (fst (es ! Suc i)) (snd (es ! Suc i)) (fst (?tr ! i))"
    by (rule FurnaceBlower_ticks_nth_Suc [OF Suc.prems(1)])
  show ?case
  proof (cases "latchedState (fst (?tr ! i))")
    case None
    from Suc.prems(2) FurnaceBlower_Update_no_latch [OF None, of "fst (es ! Suc i)" "snd (es ! Suc i)"]
    have "override_condition (fst (es ! Suc i)) (snd (es ! Suc i)) \<and>
        GetBlowerState (fst (es ! Suc i)) = l \<and> l \<noteq> - 1"
      by (auto simp: step split: if_splits)
    moreover have "\<forall>j. Suc i \<le> j \<and> j \<le> Suc i \<longrightarrow> latchedState (fst (?tr ! j)) = Some l"
      using Suc.prems(2) by (auto simp: le_antisym)
    ultimately show ?thesis by blast
  next
    case (Some l')
    from Suc.prems(2) FurnaceBlower_Update_latch [OF Some, of "fst (es ! Suc i)" "snd (es ! Suc i)"]
    have "l' = l" by (auto simp: step split: if_splits)
    with Some have "latchedState (fst (?tr ! i)) = Some l" by simp
    from Suc.IH [OF i this] obtain k where k: "k \<le> i"
      and o: "override_condition (fst (es ! k)) (snd (es ! k))"
      and g: "GetBlowerState (fst (es ! k)) = l" "l \<noteq> - 1"
      and h: "\<forall>j. k \<le> j \<and> j \<le> i \<longrightarrow> latchedState (fst (?tr ! j)) = Some l"
      by blast
    have "\<forall>j. k \<le> j \<and> j \<le> Suc i \<longrightarrow> latchedState (fst (?tr ! j)) = Some l"
    proof (intro allI impI)
      fix j assume "k \<le> j \<and> j \<le> Suc i"
      then consider "k \<le> j \<and> j \<le> i" | "j = Suc i" by linarith
      then show "latchedState (fst (?tr ! j)) = Some l"
        using h Suc.prems(2) by cases auto
    qed
    with k o g show ?thesis by (intro exI [of _ k]) simp
  qed
qed

text \<open>
  Claim C4, as the code has it. With no latch held, a tick captures one exactly when it
  is in the override branch and the mode seen is valid, and the latch is that mode.
  A latch that is held is never overwritten, so an override episode captures once; it
  is cleared exactly on a tick outside the override branch on which the mode seen is
  the latched one, and on a tick outside the override branch on which the mode seen
  differs, the blower is commanded back to the latched mode and the latch stays, tick
  after tick until the device shows it. In a run from the start of the process, a
  latch held after some tick was captured on an earlier tick of the override branch,
  from the valid mode seen there, and has been held since.
\<close>

theorem blower_latch_lifecycle:
  "(latchedState blower = None \<longrightarrow>
      latchedState (fst (FurnaceBlower_Update tstat now blower)) =
        (if override_condition tstat now \<and> GetBlowerState tstat \<noteq> - 1
         then Some (GetBlowerState tstat) else None))
   \<and> (latchedState blower = Some l \<longrightarrow>
        latchedState (fst (FurnaceBlower_Update tstat now blower)) =
          (if \<not> override_condition tstat now \<and> GetBlowerState tstat = l then None else Some l))
   \<and> (latchedState blower = Some l \<and> \<not> override_condition tstat now \<and>
        GetBlowerState tstat \<noteq> l \<longrightarrow>
        FurnaceBlower_Update tstat now blower = (blower, [SetBlowerState l]))
   \<and> (i < length es \<and>
        latchedState (fst (FurnaceBlower_ticks es FurnaceBlower_FurnaceBlower ! i)) = Some m \<longrightarrow>
        (\<exists>k\<le>i. override_condition (fst (es ! k)) (snd (es ! k)) \<and>
            GetBlowerState (fst (es ! k)) = m \<and> m \<noteq> - 1 \<and>
            (\<forall>j. k \<le> j \<and> j \<le> i \<longrightarrow>
               latchedState (fst (FurnaceBlower_ticks es FurnaceBlower_FurnaceBlower ! j))
                 = Some m)))"
proof (intro conjI impI)
  assume "latchedState blower = None"
  then show "latchedState (fst (FurnaceBlower_Update tstat now blower)) =
        (if override_condition tstat now \<and> GetBlowerState tstat \<noteq> - 1
         then Some (GetBlowerState tstat) else None)"
    by (rule FurnaceBlower_Update_no_latch)
next
  assume "latchedState blower = Some l"
  then show "latchedState (fst (FurnaceBlower_Update tstat now blower)) =
          (if \<not> override_condition tstat now \<and> GetBlowerState tstat = l then None else Some l)"
    by (rule FurnaceBlower_Update_latch)
next
  assume "latchedState blower = Some l \<and> \<not> override_condition tstat now \<and>
        GetBlowerState tstat \<noteq> l"
  then show "FurnaceBlower_Update tstat now blower = (blower, [SetBlowerState l])"
    by (simp add: FurnaceBlower_Update_restore)
next
  assume "i < length es \<and>
        latchedState (fst (FurnaceBlower_ticks es FurnaceBlower_FurnaceBlower ! i)) = Some m"
  then show "\<exists>k\<le>i. override_condition (fst (es ! k)) (snd (es ! k)) \<and>
            GetBlowerState (fst (es ! k)) = m \<and> m \<noteq> - 1 \<and>
            (\<forall>j. k \<le> j \<and> j \<le> i \<longrightarrow>
               latchedState (fst (FurnaceBlower_ticks es FurnaceBlower_FurnaceBlower ! j))
                 = Some m)"
    using FurnaceBlower_ticks_latch_origin [of FurnaceBlower_FurnaceBlower i es m]
    by (simp add: FurnaceBlower_FurnaceBlower_def)
qed

theorem blower_latch_lifecycle_witness:
  "FurnaceBlower_ticks
     [(tstat_with False 0 (seconds 1015) True, seconds 1015),
      (tstat_with False 2 (seconds 1015) False, seconds 1030),
      (tstat_with False 2 (seconds 1015) False, seconds 1375),
      (tstat_with False 0 (seconds 1015) False, seconds 1390)]
     FurnaceBlower_FurnaceBlower =
     [(\<lparr> latchedState = Some 0 \<rparr>, [SetBlowerState 2]),
      (\<lparr> latchedState = Some 0 \<rparr>, []),
      (\<lparr> latchedState = Some 0 \<rparr>, [SetBlowerState 0]),
      (\<lparr> latchedState = None \<rparr>, [])]
   \<and> latchedState (fst (FurnaceBlower_Update (tstat_with False 0 (seconds 1015) True)
        (seconds 1015) \<lparr> latchedState = None \<rparr>)) = Some 0
   \<and> latchedState (fst (FurnaceBlower_Update (tstat_with False 0 (seconds 1015) False)
        (seconds 1390) \<lparr> latchedState = Some 0 \<rparr>)) = None
   \<and> FurnaceBlower_Update (tstat_with False 2 (seconds 1015) False) (seconds 1375)
        \<lparr> latchedState = Some 0 \<rparr> = (\<lparr> latchedState = Some 0 \<rparr>, [SetBlowerState 0])
   \<and> (\<exists>k\<le>2. override_condition
               (fst ([(tstat_with False 0 (seconds 1015) True, seconds 1015),
                      (tstat_with False 2 (seconds 1015) False, seconds 1030),
                      (tstat_with False 2 (seconds 1015) False, seconds 1375),
                      (tstat_with False 0 (seconds 1015) False, seconds 1390)] ! k))
               (snd ([(tstat_with False 0 (seconds 1015) True, seconds 1015),
                      (tstat_with False 2 (seconds 1015) False, seconds 1030),
                      (tstat_with False 2 (seconds 1015) False, seconds 1375),
                      (tstat_with False 0 (seconds 1015) False, seconds 1390)] ! k)))"
proof -
  let ?es = "[(tstat_with False 0 (seconds 1015) True, seconds 1015),
      (tstat_with False 2 (seconds 1015) False, seconds 1030),
      (tstat_with False 2 (seconds 1015) False, seconds 1375),
      (tstat_with False 0 (seconds 1015) False, seconds 1390)]"
  have tr: "FurnaceBlower_ticks ?es FurnaceBlower_FurnaceBlower =
     [(\<lparr> latchedState = Some 0 \<rparr>, [SetBlowerState 2]),
      (\<lparr> latchedState = Some 0 \<rparr>, []),
      (\<lparr> latchedState = Some 0 \<rparr>, [SetBlowerState 0]),
      (\<lparr> latchedState = None \<rparr>, [])]"
    by code_simp
  have o1: "override_condition (tstat_with False 0 (seconds 1015) True) (seconds 1015)"
    by code_simp
  have o3: "\<not> override_condition (tstat_with False 2 (seconds 1015) False) (seconds 1375)"
    by code_simp
  have o4: "\<not> override_condition (tstat_with False 0 (seconds 1015) False) (seconds 1390)"
    by code_simp
  have g: "GetBlowerState (tstat_with False m t c) = m" for m t c
    by (simp add: GetBlowerState_def tstat_with_def)
  have a: "latchedState (fst (FurnaceBlower_Update (tstat_with False 0 (seconds 1015) True)
        (seconds 1015) \<lparr> latchedState = None \<rparr>)) = Some 0"
    using blower_latch_lifecycle [of "\<lparr> latchedState = None \<rparr>"
        "tstat_with False 0 (seconds 1015) True" "seconds 1015"] o1
    by (simp add: g)
  have b: "latchedState (fst (FurnaceBlower_Update (tstat_with False 0 (seconds 1015) False)
        (seconds 1390) \<lparr> latchedState = Some 0 \<rparr>)) = None"
    using blower_latch_lifecycle [of "\<lparr> latchedState = Some 0 \<rparr>"
        "tstat_with False 0 (seconds 1015) False" "seconds 1390" 0] o4
    by (simp add: g)
  have c: "FurnaceBlower_Update (tstat_with False 2 (seconds 1015) False) (seconds 1375)
        \<lparr> latchedState = Some 0 \<rparr> = (\<lparr> latchedState = Some 0 \<rparr>, [SetBlowerState 0])"
    using blower_latch_lifecycle [of "\<lparr> latchedState = Some 0 \<rparr>"
        "tstat_with False 2 (seconds 1015) False" "seconds 1375" 0] o3
    by (simp add: g)
  have "2 < length ?es \<and>
      latchedState (fst (FurnaceBlower_ticks ?es FurnaceBlower_FurnaceBlower ! 2)) = Some 0"
    unfolding tr by simp
  with blower_latch_lifecycle [of _ _ _ _ 2 ?es 0]
  have "\<exists>k\<le>2. override_condition (fst (?es ! k)) (snd (?es ! k)) \<and>
            GetBlowerState (fst (?es ! k)) = 0 \<and> (0::int) \<noteq> - 1 \<and>
            (\<forall>j. k \<le> j \<and> j \<le> 2 \<longrightarrow>
               latchedState (fst (FurnaceBlower_ticks ?es FurnaceBlower_FurnaceBlower ! j))
                 = Some 0)"
    by blast
  then have d: "\<exists>k\<le>2. override_condition (fst (?es ! k)) (snd (?es ! k))"
    by blast
  from tr a b c d show ?thesis by blast
qed

text \<open>
  The claim as written fails: it has the latch cleared on any tick on which the mode
  seen is the latched one. With the blower already \<open>ON\<close> when the heat stops, the
  latch is \<open>ON\<close>, the mode seen is \<open>ON\<close> on every tick of the tail window, and the
  latch is kept throughout, while no natural mode is being suppressed.
\<close>

theorem blower_latch_kept_in_override:
  "FurnaceBlower_ticks
     [(tstat_with True 2 (seconds 625) False, seconds 1000),
      (tstat_with False 2 (seconds 1015) True, seconds 1015),
      (tstat_with False 2 (seconds 1015) False, seconds 1030)]
     FurnaceBlower_FurnaceBlower =
     [(\<lparr> latchedState = None \<rparr>, []),
      (\<lparr> latchedState = Some 2 \<rparr>, []),
      (\<lparr> latchedState = Some 2 \<rparr>, [])]
   \<and> GetBlowerState (tstat_with False 2 (seconds 1015) False) = 2"
  by code_simp

section \<open>The timeline after the heat stops\<close>

lemma all_same_replicate:
  "(\<forall>r\<in>set xs. r = a) \<Longrightarrow> xs = replicate (length xs) a"
  by (induction xs) simp_all

lemma CeilingFan_ticks_settle:
  assumes "\<not> fanStateUpdatedSinceLastTransition fan"
    and "\<forall>x\<in>set pre. \<not> StateChanged (fst (snd x)) \<and> \<not> isFurnaceOn (fst (snd x)) \<and>
           GetTimeSinceTransition (fst (snd x)) (snd (snd x)) \<le> k_ceilingFanOffDelay"
    and "\<not> StateChanged (fst (snd e)) \<and> \<not> isFurnaceOn (fst (snd e)) \<and>
           k_ceilingFanOffDelay < GetTimeSinceTransition (fst (snd e)) (snd (snd e)) \<and>
           fst e (SetFanSpeed k_heatOffFanSpeed)"
    and "\<forall>x\<in>set post. \<not> StateChanged (fst (snd x))"
  shows "CeilingFan_ticks (pre @ e # post) fan =
     replicate (length pre) (fan, []) @
     (fan\<lparr>fanStateUpdatedSinceLastTransition := True\<rparr>, [SetFanSpeed k_heatOffFanSpeed]) #
     replicate (length post) (fan\<lparr>fanStateUpdatedSinceLastTransition := True\<rparr>, [])"
  using assms(2)
proof (induction pre)
  case Nil
  let ?fan' = "fan\<lparr>fanStateUpdatedSinceLastTransition := True\<rparr>"
  have u: "CeilingFan_Update (fst e) (fst (snd e)) (snd (snd e)) fan =
      (?fan', [SetFanSpeed k_heatOffFanSpeed])"
    using assms(1,3) by (simp add: CeilingFan_Update_def Let_def)
  have "fanStateUpdatedSinceLastTransition ?fan'" by simp
  from CeilingFan_ticks_applied [OF this assms(4)]
  have "CeilingFan_ticks post ?fan' = replicate (length post) (?fan', [])"
    using all_same_replicate [of "CeilingFan_ticks post ?fan'" "(?fan', [])"] by simp
  with u show ?case by (simp add: Let_def)
next
  case (Cons x pre)
  have "CeilingFan_Update (fst x) (fst (snd x)) (snd (snd x)) fan = (fan, [])"
    using assms(1) Cons.prems by (simp add: CeilingFan_Update_def Let_def)
  with Cons show ?case by (simp add: Let_def)
qed

text \<open>
  Claim C5, as the code has it. The tail window is 360 seconds, the on delay 60 and
  the off delay 180. Take the ticks of a ceiling fan from the poll that flags the
  heat going off: that tick and every later tick at which the time since the
  transition is at most 180 seconds post nothing; the first tick at which it is more
  than 180 seconds posts the heat-off speed, once, and when the device accepts it no
  later tick of the run posts anything. The furnace blower, with heat off, posts
  \<open>ON\<close> on the tick of the transition and on every tick with less than 360 seconds
  since the transition, whenever the mode seen is not \<open>ON\<close>; once 360 seconds or
  more have passed, or as soon as heat is active again, it posts the latched mode
  whenever a latch is held and differs from the mode seen.
\<close>

theorem heat_off_timeline:
  "k_runBlowerFanAfterHeatOff = seconds 360 \<and> k_ceilingFanOnDelay = seconds 60 \<and>
   k_ceilingFanOffDelay = seconds 180
   \<and> (StateChanged (fst (snd e0)) \<and>
       (\<forall>x\<in>set pre. \<not> StateChanged (fst (snd x)) \<and> \<not> isFurnaceOn (fst (snd x)) \<and>
           GetTimeSinceTransition (fst (snd x)) (snd (snd x)) \<le> seconds 180) \<and>
       \<not> StateChanged (fst (snd e)) \<and> \<not> isFurnaceOn (fst (snd e)) \<and>
       seconds 180 < GetTimeSinceTransition (fst (snd e)) (snd (snd e)) \<and>
       fst e (SetFanSpeed k_heatOffFanSpeed) \<and>
       (\<forall>x\<in>set post. \<not> StateChanged (fst (snd x))) \<longrightarrow>
       CeilingFan_ticks (e0 # pre @ e # post) fan =
         (\<lparr> fanStateUpdatedSinceLastTransition = False \<rparr>, []) #
         replicate (length pre) (\<lparr> fanStateUpdatedSinceLastTransition = False \<rparr>, []) @
         (\<lparr> fanStateUpdatedSinceLastTransition = True \<rparr>, [SetFanSpeed k_heatOffFanSpeed]) #
         replicate (length post) (\<lparr> fanStateUpdatedSinceLastTransition = True \<rparr>, []))
   \<and> (\<not> isFurnaceOn tstat \<and>
       (StateChanged tstat \<or> GetTimeSinceTransition tstat now < seconds 360) \<and>
       GetBlowerState tstat \<noteq> BLOWER_ON \<longrightarrow>
       snd (FurnaceBlower_Update tstat now blower) = [SetBlowerState BLOWER_ON])
   \<and> (\<not> StateChanged tstat \<and> seconds 360 \<le> GetTimeSinceTransition tstat now \<and>
       latchedState blower = Some l \<and> GetBlowerState tstat \<noteq> l \<longrightarrow>
       FurnaceBlower_Update tstat now blower = (blower, [SetBlowerState l]))
   \<and> (isFurnaceOn tstat \<and> latchedState blower = Some l \<and> GetBlowerState tstat \<noteq> l \<longrightarrow>
       FurnaceBlower_Update tstat now blower = (blower, [SetBlowerState l]))"
proof (intro conjI impI)
  show "k_runBlowerFanAfterHeatOff = seconds 360"
    by (simp add: k_runBlowerFanAfterHeatOff_def)
  show "k_ceilingFanOnDelay = seconds 60"
    by (simp add: k_ceilingFanOnDelay_def)
  show "k_ceilingFanOffDelay = seconds 180"
    by (simp add: k_ceilingFanOffDelay_def)
next
  let ?off = "\<lparr> fanStateUpdatedSinceLastTransition = False \<rparr>"
  assume h: "StateChanged (fst (snd e0)) \<and>
       (\<forall>x\<in>set pre. \<not> StateChanged (fst (snd x)) \<and> \<not> isFurnaceOn (fst (snd x)) \<and>
           GetTimeSinceTransition (fst (snd x)) (snd (snd x)) \<le> seconds 180) \<and>
       \<not> StateChanged (fst (snd e)) \<and> \<not> isFurnaceOn (fst (snd e)) \<and>
       seconds 180 < GetTimeSinceTransition (fst (snd e)) (snd (snd e)) \<and>
       fst e (SetFanSpeed k_heatOffFanSpeed) \<and>
       (\<forall>x\<in>set post. \<not> StateChanged (fst (snd x)))"
  then have u: "CeilingFan_Update (fst e0) (fst (snd e0)) (snd (snd e0)) fan = (?off, [])"
    by (simp add: CeilingFan_Update_def)
  have "CeilingFan_ticks (pre @ e # post) ?off =
     replicate (length pre) (?off, []) @
     (?off\<lparr>fanStateUpdatedSinceLastTransition := True\<rparr>, [SetFanSpeed k_heatOffFanSpeed]) #
     replicate (length post) (?off\<lparr>fanStateUpdatedSinceLastTransition := True\<rparr>, [])"
    using h by (intro CeilingFan_ticks_settle) (simp_all add: k_ceilingFanOffDelay_def)
  with u show "CeilingFan_ticks (e0 # pre @ e # post) fan =
         (?off, []) # replicate (length pre) (?off, []) @
         (\<lparr> fanStateUpdatedSinceLastTransition = True \<rparr>, [SetFanSpeed k_heatOffFanSpeed]) #
         replicate (length post) (\<lparr> fanStateUpdatedSinceLastTransition = True \<rparr>, [])"
    by (simp add: Let_def)
next
  assume "\<not> isFurnaceOn tstat \<and>
       (StateChanged tstat \<or> GetTimeSinceTransition tstat now < seconds 360) \<and>
       GetBlowerState tstat \<noteq> BLOWER_ON"
  then show "snd (FurnaceBlower_Update tstat now blower) = [SetBlowerState BLOWER_ON]"
    by (simp add: FurnaceBlower_Update_def override_condition_def
        k_runBlowerFanAfterHeatOff_def Let_def)
next
  assume "\<not> StateChanged tstat \<and> seconds 360 \<le> GetTimeSinceTransition tstat now \<and>
       latchedState blower = Some l \<and> GetBlowerState tstat \<noteq> l"
  then show "FurnaceBlower_Update tstat now blower = (blower, [SetBlowerState l])"
    by (intro FurnaceBlower_Update_restore)
       (simp_all add: override_condition_def k_runBlowerFanAfterHeatOff_def)
next
  assume "isFurnaceOn tstat \<and> latchedState blower = Some l \<and> GetBlowerState tstat \<noteq> l"
  then show "FurnaceBlower_Update tstat now blower = (blower, [SetBlowerState l])"
    by (intro FurnaceBlower_Update_restore) (simp_all add: override_condition_def)
qed

theorem heat_off_timeline_witness:
  "CeilingFan_ticks
     ((\<lambda>c. True, tstat_with False 0 (seconds 1015) True, seconds 1015) #
      [(\<lambda>c. True, tstat_with False 0 (seconds 1015) False, seconds 1030),
       (\<lambda>c. True, tstat_with False 0 (seconds 1015) False, seconds 1195)] @
      (\<lambda>c. True, tstat_with False 0 (seconds 1015) False, seconds 1210) #
      [(\<lambda>c. True, tstat_with False 0 (seconds 1015) False, seconds 1225)])
     \<lparr> fanStateUpdatedSinceLastTransition = True \<rparr> =
     [(\<lparr> fanStateUpdatedSinceLastTransition = False \<rparr>, []),
      (\<lparr> fanStateUpdatedSinceLastTransition = False \<rparr>, []),
      (\<lparr> fanStateUpdatedSinceLastTransition = False \<rparr>, []),
      (\<lparr> fanStateUpdatedSinceLastTransition = True \<rparr>, [SetFanSpeed 1]),
      (\<lparr> fanStateUpdatedSinceLastTransition = True \<rparr>, [])]
   \<and> snd (FurnaceBlower_Update (tstat_with False 0 (seconds 1015) True) (seconds 1015)
        \<lparr> latchedState = None \<rparr>) = [SetBlowerState 2]
   \<and> FurnaceBlower_Update (tstat_with False 2 (seconds 1015) False) (seconds 1375)
        \<lparr> latchedState = Some 0 \<rparr> = (\<lparr> latchedState = Some 0 \<rparr>, [SetBlowerState 0])
   \<and> FurnaceBlower_Update (tstat_with True 2 (seconds 1100) True) (seconds 1100)
        \<lparr> latchedState = Some 0 \<rparr> = (\<lparr> latchedState = Some 0 \<rparr>, [SetBlowerState 0])"
proof -
  let ?T = "tstat_with False 0 (seconds 1015) False"
  let ?start = "(\<lambda>c. True, tstat_with False 0 (seconds 1015) True, seconds 1015) :: fan_tick"
  let ?pre = "[(\<lambda>c. True, ?T, seconds 1030), (\<lambda>c. True, ?T, seconds 1195)] :: fan_tick list"
  let ?due = "(\<lambda>c. True, ?T, seconds 1210) :: fan_tick"
  let ?post = "[(\<lambda>c. True, ?T, seconds 1225)] :: fan_tick list"
  have h: "StateChanged (fst (snd ?start)) \<and>
       (\<forall>x\<in>set ?pre. \<not> StateChanged (fst (snd x)) \<and> \<not> isFurnaceOn (fst (snd x)) \<and>
           GetTimeSinceTransition (fst (snd x)) (snd (snd x)) \<le> seconds 180) \<and>
       \<not> StateChanged (fst (snd ?due)) \<and> \<not> isFurnaceOn (fst (snd ?due)) \<and>
       seconds 180 < GetTimeSinceTransition (fst (snd ?due)) (snd (snd ?due)) \<and>
       fst ?due (SetFanSpeed k_heatOffFanSpeed) \<and>
       (\<forall>x\<in>set ?post. \<not> StateChanged (fst (snd x)))"
    by (simp add: StateChanged_def isFurnaceOn_def GetTimeSinceTransition_def tstat_with_def
        seconds_def)
  have a: "CeilingFan_ticks (?start # ?pre @ ?due # ?post)
      \<lparr> fanStateUpdatedSinceLastTransition = True \<rparr> =
     [(\<lparr> fanStateUpdatedSinceLastTransition = False \<rparr>, []),
      (\<lparr> fanStateUpdatedSinceLastTransition = False \<rparr>, []),
      (\<lparr> fanStateUpdatedSinceLastTransition = False \<rparr>, []),
      (\<lparr> fanStateUpdatedSinceLastTransition = True \<rparr>, [SetFanSpeed 1]),
      (\<lparr> fanStateUpdatedSinceLastTransition = True \<rparr>, [])]"
    using heat_off_timeline [of ?start ?pre ?due ?post
        "\<lparr> fanStateUpdatedSinceLastTransition = True \<rparr>"] h
    by (simp add: k_heatOffFanSpeed_def numeral_2_eq_2)
  have b1: "\<not> isFurnaceOn (tstat_with False 0 (seconds 1015) True) \<and>
       (StateChanged (tstat_with False 0 (seconds 1015) True) \<or>
        GetTimeSinceTransition (tstat_with False 0 (seconds 1015) True) (seconds 1015)
          < seconds 360) \<and>
       GetBlowerState (tstat_with False 0 (seconds 1015) True) \<noteq> BLOWER_ON"
    by (simp add: StateChanged_def isFurnaceOn_def GetBlowerState_def tstat_with_def
        BLOWER_ON_def)
  have b: "snd (FurnaceBlower_Update (tstat_with False 0 (seconds 1015) True) (seconds 1015)
        \<lparr> latchedState = None \<rparr>) = [SetBlowerState 2]"
    using heat_off_timeline [of _ _ _ _ _ "tstat_with False 0 (seconds 1015) True"
        "seconds 1015" "\<lparr> latchedState = None \<rparr>"] b1
    by (simp add: BLOWER_ON_def)
  have c1: "\<not> StateChanged (tstat_with False 2 (seconds 1015) False) \<and>
       seconds 360 \<le> GetTimeSinceTransition (tstat_with False 2 (seconds 1015) False)
         (seconds 1375) \<and>
       latchedState \<lparr> latchedState = Some 0 \<rparr> = Some 0 \<and>
       GetBlowerState (tstat_with False 2 (seconds 1015) False) \<noteq> 0"
    by (simp add: StateChanged_def GetTimeSinceTransition_def GetBlowerState_def tstat_with_def
        seconds_def)
  have c: "FurnaceBlower_Update (tstat_with False 2 (seconds 1015) False) (seconds 1375)
        \<lparr> latchedState = Some 0 \<rparr> = (\<lparr> latchedState = Some 0 \<rparr>, [SetBlowerState 0])"
    using heat_off_timeline [of _ _ _ _ _ "tstat_with False 2 (seconds 1015) False"
        "seconds 1375" "\<lparr> latchedState = Some 0 \<rparr>" 0] c1
    by blast
  have d1: "isFurnaceOn (tstat_with True 2 (seconds 1100) True) \<and>
       latchedState \<lparr> latchedState = Some 0 \<rparr> = Some 0 \<and>
       GetBlowerState (tstat_with True 2 (seconds 1100) True) \<noteq> 0"
    by (simp add: isFurnaceOn_def GetBlowerState_def tstat_with_def)
  have d: "FurnaceBlower_Update (tstat_with True 2 (seconds 1100) True) (seconds 1100)
        \<lparr> latchedState = Some 0 \<rparr> = (\<lparr> latchedState = Some 0 \<rparr>, [SetBlowerState 0])"
    using heat_off_timeline [of _ _ _ _ _ "tstat_with True 2 (seconds 1100) True"
        "seconds 1100" "\<lparr> latchedState = Some 0 \<rparr>" 0] d1
    by blast
  from a b c d show ?thesis by blast
qed

text \<open>
  The claim as written fails at the boundary: a poll exactly 180 seconds after the
  transition is the first at or after 180 seconds, and the ceiling fan posts nothing
  on it, because the comparison with the delay is strict.
\<close>

theorem no_fan_command_at_180_seconds:
  "polls example_Parse
     [((200, body_heat_on), seconds 1000), ((200, body_heat_off), seconds 1015),
      ((200, body_heat_off), seconds 1195)]
     (Thermostat_Thermostat (seconds 985)) =
     Returns [(True, tstat_with True 0 (seconds 625) False, []),
              (True, tstat_with False 0 (seconds 1015) True, []),
              (True, tstat_with False 0 (seconds 1015) False, [])]
   \<and> GetTimeSinceTransition (tstat_with False 0 (seconds 1015) False) (seconds 1195)
       = seconds 180
   \<and> CeilingFan_ticks
       [(\<lambda>c. True, tstat_with False 0 (seconds 1015) True, seconds 1015),
        (\<lambda>c. True, tstat_with False 0 (seconds 1015) False, seconds 1195)]
       \<lparr> fanStateUpdatedSinceLastTransition = True \<rparr> =
       [(\<lparr> fanStateUpdatedSinceLastTransition = False \<rparr>, []),
        (\<lparr> fanStateUpdatedSinceLastTransition = False \<rparr>, [])]"
  by code_simp

end
